theory Spec2Isabelle
  imports Main "HOL-Library.Word" "HOL-Library.Multiset"
begin

section \<open>Credential store (server/auth.ts)\<close>

text \<open>
  A Node \<open>Buffer\<close> is a list of bytes. JavaScript strings are modelled as \<open>string\<close>;
  the characters the credential code inspects (the hex digits and the dot) are ASCII.
\<close>

type_synonym byte = "8 word"
type_synonym buffer = "byte list"

datatype error =
    TypeError          \<comment> \<open>\<open>crypto.scrypt\<close> called with an undefined salt\<close>
  | RangeError         \<comment> \<open>\<open>timingSafeEqual\<close> on buffers of different byte length\<close>
  | UniqueViolation    \<comment> \<open>insert that breaks a \<open>.unique()\<close> column\<close>
  | NoValuesToSet      \<comment> \<open>\<open>update().set(data)\<close> where \<open>data\<close> has no defined value\<close>
  | NotADate           \<comment> \<open>a timestamp column given a value without \<open>toISOString\<close>\<close>
  | InvalidByteSequence \<comment> \<open>a text parameter that holds U+0000\<close>
  | IndexRowTooLarge   \<comment> \<open>a value too large for an entry of a unique index\<close>
  | ForeignKeyViolation \<comment> \<open>a reference to a user row that does not exist\<close>

subsection \<open>\<open>buf.toString("hex")\<close> and \<open>Buffer.from(s, "hex")\<close>\<close>

definition hexDigit :: "nat \<Rightarrow> char" where
  "hexDigit n = ''0123456789abcdef'' ! n"

definition hexVal :: "char \<Rightarrow> nat option" where
  "hexVal c =
     (let n = (of_char c :: nat) in
      if 48 \<le> n \<and> n \<le> 57 then Some (n - 48)
      else if 97 \<le> n \<and> n \<le> 102 then Some (n - 87)
      else if 65 \<le> n \<and> n \<le> 70 then Some (n - 55)
      else None)"

fun toHex :: "buffer \<Rightarrow> string" where
  "toHex [] = []"
| "toHex (b # bs) = hexDigit (unat b div 16) # hexDigit (unat b mod 16) # toHex bs"

text \<open>
  \<open>Buffer.from(s, "hex")\<close> decodes pairs of hex digits and stops, keeping what it has
  decoded so far, at the first pair that is not two hex digits or at a trailing single
  character. It never throws.
\<close>

fun fromHex :: "string \<Rightarrow> buffer" where
  "fromHex (a # b # cs) =
     (case (hexVal a, hexVal b) of
        (Some x, Some y) \<Rightarrow> word_of_nat (16 * x + y) # fromHex cs
      | _ \<Rightarrow> [])"
| "fromHex _ = []"

subsection \<open>\<open>String.prototype.split\<close> with a one-character separator\<close>

fun split :: "char \<Rightarrow> string \<Rightarrow> string list" where
  "split sep [] = [[]]"
| "split sep (c # cs) =
     (if c = sep then [] # split sep cs
      else (case split sep cs of
              [] \<Rightarrow> [[c]]
            | w # ws \<Rightarrow> (c # w) # ws))"

text \<open>Array destructuring \<open>[hashed, salt] = parts\<close>: a missing element is \<open>undefined\<close>.\<close>

definition element :: "'a list \<Rightarrow> nat \<Rightarrow> 'a option" where
  "element xs i = (if i < length xs then Some (xs ! i) else None)"

subsection \<open>scrypt, hashPassword, comparePasswords\<close>

text \<open>
  \<open>crypto.scrypt\<close> is the runtime's; it is a parameter \<open>kdf password salt keylen\<close> of the
  model. \<open>kdf_ok\<close> states the one property of it that is used: the derived key has
  \<open>keylen\<close> bytes.
\<close>

type_synonym kdf = "string \<Rightarrow> string \<Rightarrow> nat \<Rightarrow> buffer"

definition kdf_ok :: "kdf \<Rightarrow> bool" where
  "kdf_ok k = (\<forall>p s n. length (k p s n) = n)"

definition scryptAsync :: "kdf \<Rightarrow> string \<Rightarrow> string option \<Rightarrow> nat \<Rightarrow> error + buffer" where
  "scryptAsync k password salt keylen =
     (case salt of
        None \<Rightarrow> Inl TypeError
      | Some s \<Rightarrow> Inr (k password s keylen))"

definition timingSafeEqual :: "buffer \<Rightarrow> buffer \<Rightarrow> error + bool" where
  "timingSafeEqual a b = (if length a \<noteq> length b then Inl RangeError else Inr (a = b))"

text \<open>
  \<open>hashPassword\<close> draws 16 random bytes; they are the argument \<open>rnd\<close>.
\<close>

definition hashPassword :: "kdf \<Rightarrow> buffer \<Rightarrow> string \<Rightarrow> error + string" where
  "hashPassword k rnd password =
     (let salt = toHex rnd in
      case scryptAsync k password (Some salt) 64 of
        Inl e \<Rightarrow> Inl e
      | Inr buf \<Rightarrow> Inr (toHex buf @ ''.'' @ salt))"

definition comparePasswords :: "kdf \<Rightarrow> string \<Rightarrow> string \<Rightarrow> error + bool" where
  "comparePasswords k supplied stored =
     (let parts = split (CHR ''.'') stored;
          hashed = hd parts;
          salt = element parts 1;
          hashedBuf = fromHex hashed
      in case scryptAsync k supplied salt 64 of
           Inl e \<Rightarrow> Inl e
         | Inr suppliedBuf \<Rightarrow> timingSafeEqual hashedBuf suppliedBuf)"

text \<open>A small key derivation used to run the definitions on concrete inputs.\<close>

definition demo_kdf :: kdf where
  "demo_kdf p s n = take n (map of_char (p @ s) @ replicate n 0)"


section \<open>Schema (shared/schema.ts)\<close>

text \<open>
  One record per table row, with the columns of the table. A nullable column is an
  \<open>option\<close>; a \<open>timestamp\<close> is a number of milliseconds. Field names carry a prefix of
  the table, since several tables have columns of the same name.
\<close>

type_synonym timestamp = int

record user =
  u_id :: int
  u_username :: string
  u_password :: string
  u_email :: string
  u_name :: string
  u_avatar :: "string option"
  u_isAdmin :: bool
  u_roleId :: "int option"
  u_isApproved :: bool

record role =
  r_id :: int
  r_name :: string
  r_color :: string

record access_request =
  ar_id :: int
  ar_username :: string
  ar_email :: string
  ar_password :: string
  ar_name :: string
  ar_status :: string
  ar_requestedAt :: timestamp

record message =
  m_id :: int
  m_senderId :: int
  m_content :: "string option"
  m_messageType :: string
  m_mediaUrl :: "string option"
  m_isDeleted :: bool
  m_createdAt :: timestamp

record task =
  t_id :: int
  t_title :: string
  t_description :: "string option"
  t_priority :: string
  t_status :: string
  t_assignedTo :: "int option"
  t_createdBy :: int
  t_dueDate :: "timestamp option"
  t_createdAt :: timestamp

record attendance_row =
  at_id :: int
  at_userId :: int
  at_clockIn :: timestamp
  at_clockOut :: "timestamp option"
  at_date :: string

text \<open>\<open>InsertUser\<close>, \<open>InsertAccessRequest\<close>, \<open>InsertAttendance\<close>: the row without the
  generated and defaulted columns the insert schema omits.\<close>

record insert_user =
  iu_username :: string
  iu_password :: string
  iu_email :: string
  iu_name :: string
  iu_avatar :: "string option"
  iu_isAdmin :: bool
  iu_roleId :: "int option"
  iu_isApproved :: bool

record insert_access_request =
  iar_username :: string
  iar_email :: string
  iar_password :: string
  iar_name :: string

record insert_attendance =
  iat_userId :: int
  iat_clockIn :: timestamp
  iat_clockOut :: "timestamp option"
  iat_date :: string

text \<open>\<open>Partial<InsertTask>\<close> and \<open>Partial<InsertAttendance>\<close>: every field may be absent
  (\<open>None\<close>); a present nullable field is \<open>Some None\<close> for \<open>null\<close>. The type of
  \<open>dueDate\<close> is \<open>Date\<close>, but the types are erased when the code runs and a caller can
  pass what it has: \<open>due_value\<close> is a \<open>Date\<close> or the string that a JSON body holds.\<close>

datatype due_value = DueDate timestamp | DueString string

record partial_task =
  pt_title :: "string option"
  pt_description :: "string option option"
  pt_priority :: "string option"
  pt_status :: "string option"
  pt_assignedTo :: "int option option"
  pt_createdBy :: "int option"
  pt_dueDate :: "due_value option option"

record partial_attendance =
  pa_userId :: "int option"
  pa_clockIn :: "timestamp option"
  pa_clockOut :: "timestamp option option"
  pa_date :: "string option"

text \<open>
  The database: each table is the list of its rows in insertion order, and each identity
  column that the modelled code inserts into has its sequence's next value.
\<close>

record db =
  users :: "user list"
  roles :: "role list"
  accessRequests :: "access_request list"
  messages :: "message list"
  tasks :: "task list"
  attendance :: "attendance_row list"
  users_seq :: int
  accessRequests_seq :: int
  attendance_seq :: int

section \<open>Storage (server/storage.ts, class DatabaseStorage)\<close>

text \<open>
  \<open>const [row] = await db.select()...where(p); return row || undefined\<close> is the first row
  that satisfies \<open>p\<close>, or \<open>None\<close>. An \<open>update ... where\<close> rewrites every row that
  satisfies the condition and leaves the others, and the order of the rows, as they are.
\<close>

text \<open>
  The database rejects a text parameter that holds the character U+0000, in a lookup as
  in an insert or an update. \<open>selectByText\<close> is a lookup whose condition compares a
  column with such a parameter: it throws, or gives the result of the lookup.
\<close>

definition textParameter :: "string \<Rightarrow> bool" where
  "textParameter s \<longleftrightarrow> CHR 0x00 \<notin> set s"

definition selectByText :: "string \<Rightarrow> 'a \<Rightarrow> error + 'a" where
  "selectByText param result = (if textParameter param then Inr result else Inl InvalidByteSequence)"

definition getUser :: "db \<Rightarrow> int \<Rightarrow> user option" where
  "getUser d i = find (\<lambda>u. u_id u = i) (users d)"

definition getUserByUsername :: "db \<Rightarrow> string \<Rightarrow> user option" where
  "getUserByUsername d n = find (\<lambda>u. u_username u = n) (users d)"

definition getRole :: "db \<Rightarrow> int \<Rightarrow> role option" where
  "getRole d i = find (\<lambda>r. r_id r = i) (roles d)"

text \<open>The relation \<open>role: one(roles, users.roleId = roles.id)\<close> of a user row.\<close>

definition withRole :: "db \<Rightarrow> user \<Rightarrow> user \<times> role option" where
  "withRole d u = (u, case u_roleId u of None \<Rightarrow> None | Some i \<Rightarrow> getRole d i)"

definition getUserWithRole :: "db \<Rightarrow> int \<Rightarrow> (user \<times> role option) option" where
  "getUserWithRole d i = map_option (withRole d) (getUser d i)"

text \<open>\<open>users.username\<close> is \<open>.unique()\<close>: the insert of a second row with the same name
  throws. The id is generated by the identity sequence.\<close>

definition createUser :: "db \<Rightarrow> insert_user \<Rightarrow> error + (user \<times> db)" where
  "createUser d iu =
     (if \<exists>u \<in> set (users d). u_username u = iu_username iu then Inl UniqueViolation
      else
        let newUser = \<lparr>u_id = users_seq d, u_username = iu_username iu,
              u_password = iu_password iu, u_email = iu_email iu, u_name = iu_name iu,
              u_avatar = iu_avatar iu, u_isAdmin = iu_isAdmin iu, u_roleId = iu_roleId iu,
              u_isApproved = iu_isApproved iu\<rparr>
        in Inr (newUser, d\<lparr>users := users d @ [newUser], users_seq := users_seq d + 1\<rparr>))"

text \<open>\<open>findMany({with: {role: true}, orderBy: [desc(users.id)]})\<close>.\<close>

definition getAllUsers :: "db \<Rightarrow> (user \<times> role option) list" where
  "getAllUsers d = map (withRole d) (rev (sort_key u_id (users d)))"

text \<open>\<open>deleteRole\<close> is two statements, run one after the other.\<close>

definition detachRole :: "db \<Rightarrow> int \<Rightarrow> db" where
  "detachRole d i =
     d\<lparr>users := map (\<lambda>u. if u_roleId u = Some i then u\<lparr>u_roleId := None\<rparr> else u) (users d)\<rparr>"

definition removeRole :: "db \<Rightarrow> int \<Rightarrow> db" where
  "removeRole d i = d\<lparr>roles := filter (\<lambda>r. r_id r \<noteq> i) (roles d)\<rparr>"

definition deleteRole :: "db \<Rightarrow> int \<Rightarrow> db" where
  "deleteRole d i = (let d1 = detachRole d i in removeRole d1 i)"

definition getAccessRequest :: "db \<Rightarrow> int \<Rightarrow> access_request option" where
  "getAccessRequest d i = find (\<lambda>r. ar_id r = i) (accessRequests d)"

definition getAccessRequestByUsername :: "db \<Rightarrow> string \<Rightarrow> access_request option" where
  "getAccessRequestByUsername d n = find (\<lambda>r. ar_username r = n) (accessRequests d)"

text \<open>\<open>access_requests.username\<close> is \<open>.unique()\<close>; \<open>status\<close> defaults to \<open>"pending"\<close> and
  \<open>requestedAt\<close> to the time of the insert, \<open>now\<close>. The insert is rejected when a text
  value holds U+0000, and when the username does not fit an entry of the unique index;
  which strings fit depends on the database and is the parameter \<open>indexable\<close>.\<close>

definition createAccessRequest ::
  "(string \<Rightarrow> bool) \<Rightarrow> db \<Rightarrow> timestamp \<Rightarrow> insert_access_request \<Rightarrow>
     error + (access_request \<times> db)" where
  "createAccessRequest indexable d now ir =
     (if \<not> (textParameter (iar_username ir) \<and> textParameter (iar_email ir) \<and>
             textParameter (iar_password ir) \<and> textParameter (iar_name ir))
      then Inl InvalidByteSequence
      else if \<not> indexable (iar_username ir) then Inl IndexRowTooLarge
      else if \<exists>r \<in> set (accessRequests d). ar_username r = iar_username ir
      then Inl UniqueViolation
      else
        let newRequest = \<lparr>ar_id = accessRequests_seq d, ar_username = iar_username ir,
              ar_email = iar_email ir, ar_password = iar_password ir, ar_name = iar_name ir,
              ar_status = ''pending'', ar_requestedAt = now\<rparr>
        in Inr (newRequest, d\<lparr>accessRequests := accessRequests d @ [newRequest],
                               accessRequests_seq := accessRequests_seq d + 1\<rparr>))"

definition updateAccessRequestStatus :: "db \<Rightarrow> int \<Rightarrow> string \<Rightarrow> db" where
  "updateAccessRequestStatus d i status =
     d\<lparr>accessRequests :=
         map (\<lambda>r. if ar_id r = i then r\<lparr>ar_status := status\<rparr> else r) (accessRequests d)\<rparr>"




definition getTask :: "db \<Rightarrow> int \<Rightarrow> task option" where
  "getTask d i = find (\<lambda>t. t_id t = i) (tasks d)"

text \<open>\<open>set(data)\<close> writes the columns that \<open>data\<close> defines and no other.\<close>

definition setTask :: "partial_task \<Rightarrow> task \<Rightarrow> task" where
  "setTask p t =
     t\<lparr>t_title := (case pt_title p of None \<Rightarrow> t_title t | Some v \<Rightarrow> v),
       t_description := (case pt_description p of None \<Rightarrow> t_description t | Some v \<Rightarrow> v),
       t_priority := (case pt_priority p of None \<Rightarrow> t_priority t | Some v \<Rightarrow> v),
       t_status := (case pt_status p of None \<Rightarrow> t_status t | Some v \<Rightarrow> v),
       t_assignedTo := (case pt_assignedTo p of None \<Rightarrow> t_assignedTo t | Some v \<Rightarrow> v),
       t_createdBy := (case pt_createdBy p of None \<Rightarrow> t_createdBy t | Some v \<Rightarrow> v),
       t_dueDate := (case pt_dueDate p of
                       None \<Rightarrow> t_dueDate t
                     | Some None \<Rightarrow> None
                     | Some (Some (DueDate v)) \<Rightarrow> Some v
                     | Some (Some (DueString v)) \<Rightarrow> t_dueDate t)\<rparr>"

definition noTaskValues :: "partial_task \<Rightarrow> bool" where
  "noTaskValues p \<longleftrightarrow>
     pt_title p = None \<and> pt_description p = None \<and> pt_priority p = None \<and>
     pt_status p = None \<and> pt_assignedTo p = None \<and> pt_createdBy p = None \<and>
     pt_dueDate p = None"

text \<open>
  \<open>update(tasks).set(data).where(eq(tasks.id, id)).returning()\<close>. The update throws, and
  writes nothing,
  \<^item> when \<open>data\<close> defines no column;
  \<^item> when \<open>dueDate\<close> is a value other than \<open>null\<close> or a \<open>Date\<close>: the timestamp column
    calls \<open>toISOString\<close> on it;
  \<^item> when a text value holds U+0000;
  \<^item> when a row is updated and \<open>assignedTo\<close> or \<open>createdBy\<close> names no user: both
    columns reference \<open>users.id\<close>.
\<close>

definition dueNotADate :: "partial_task \<Rightarrow> bool" where
  "dueNotADate p \<longleftrightarrow>
     (case pt_dueDate p of Some (Some (DueString v)) \<Rightarrow> True | _ \<Rightarrow> False)"

definition taskTextParameters :: "partial_task \<Rightarrow> bool" where
  "taskTextParameters p \<longleftrightarrow>
     (case pt_title p of None \<Rightarrow> True | Some v \<Rightarrow> textParameter v) \<and>
     (case pt_description p of Some (Some v) \<Rightarrow> textParameter v | _ \<Rightarrow> True) \<and>
     (case pt_priority p of None \<Rightarrow> True | Some v \<Rightarrow> textParameter v) \<and>
     (case pt_status p of None \<Rightarrow> True | Some v \<Rightarrow> textParameter v)"

definition taskReferences :: "db \<Rightarrow> partial_task \<Rightarrow> bool" where
  "taskReferences d p \<longleftrightarrow>
     (case pt_assignedTo p of Some (Some u) \<Rightarrow> getUser d u \<noteq> None | _ \<Rightarrow> True) \<and>
     (case pt_createdBy p of None \<Rightarrow> True | Some u \<Rightarrow> getUser d u \<noteq> None)"

definition updateTask :: "db \<Rightarrow> int \<Rightarrow> partial_task \<Rightarrow> error + (task option \<times> db)" where
  "updateTask d i p =
     (if noTaskValues p then Inl NoValuesToSet
      else if dueNotADate p then Inl NotADate
      else if \<not> taskTextParameters p then Inl InvalidByteSequence
      else if getTask d i \<noteq> None \<and> \<not> taskReferences d p then Inl ForeignKeyViolation
      else
        let d' = d\<lparr>tasks := map (\<lambda>t. if t_id t = i then setTask p t else t) (tasks d)\<rparr>
        in Inr (find (\<lambda>t. t_id t = i) (tasks d'), d'))"

text \<open>
  \<open>select ... where user_id = userId and date = date\<close>, first row. The table has no
  unique index on the pair, and the query no order: when several rows have the pair, the
  database may return any of them, and \<open>getTodayAttendance\<close> is the first in the order
  of the list. \<open>onePerDay\<close> says that no two rows have the same user and date; then the
  row found does not depend on the order of the rows.
\<close>

definition getTodayAttendance :: "db \<Rightarrow> int \<Rightarrow> string \<Rightarrow> attendance_row option" where
  "getTodayAttendance d userId date =
     find (\<lambda>a. at_userId a = userId \<and> at_date a = date) (attendance d)"

definition onePerDay :: "db \<Rightarrow> bool" where
  "onePerDay d \<longleftrightarrow> distinct (map (\<lambda>a. (at_userId a, at_date a)) (attendance d))"

definition createAttendance :: "db \<Rightarrow> insert_attendance \<Rightarrow> attendance_row \<times> db" where
  "createAttendance d ia =
     (let newRecord = \<lparr>at_id = attendance_seq d, at_userId = iat_userId ia,
            at_clockIn = iat_clockIn ia, at_clockOut = iat_clockOut ia, at_date = iat_date ia\<rparr>
      in (newRecord, d\<lparr>attendance := attendance d @ [newRecord],
                        attendance_seq := attendance_seq d + 1\<rparr>))"

definition setAttendance :: "partial_attendance \<Rightarrow> attendance_row \<Rightarrow> attendance_row" where
  "setAttendance p a =
     a\<lparr>at_userId := (case pa_userId p of None \<Rightarrow> at_userId a | Some v \<Rightarrow> v),
       at_clockIn := (case pa_clockIn p of None \<Rightarrow> at_clockIn a | Some v \<Rightarrow> v),
       at_clockOut := (case pa_clockOut p of None \<Rightarrow> at_clockOut a | Some v \<Rightarrow> v),
       at_date := (case pa_date p of None \<Rightarrow> at_date a | Some v \<Rightarrow> v)\<rparr>"

definition noAttendanceValues :: "partial_attendance \<Rightarrow> bool" where
  "noAttendanceValues p \<longleftrightarrow>
     pa_userId p = None \<and> pa_clockIn p = None \<and> pa_clockOut p = None \<and> pa_date p = None"

definition updateAttendance ::
  "db \<Rightarrow> int \<Rightarrow> partial_attendance \<Rightarrow> error + (attendance_row option \<times> db)" where
  "updateAttendance d i p =
     (if noAttendanceValues p then Inl NoValuesToSet
      else
        let d' = d\<lparr>attendance :=
                     map (\<lambda>a. if at_id a = i then setAttendance p a else a) (attendance d)\<rparr>
        in Inr (find (\<lambda>a. at_id a = i) (attendance d'), d'))"

section \<open>Login (server/auth.ts, setupAuth)\<close>

text \<open>What the verify callback of the \<open>LocalStrategy\<close> passes to \<open>done\<close>.\<close>

datatype verified =
    DoneUser user        \<comment> \<open>\<open>done(null, user)\<close>\<close>
  | DoneFalse string     \<comment> \<open>\<open>done(null, false, {message})\<close>\<close>
  | DoneErr error        \<comment> \<open>\<open>done(err)\<close>\<close>

definition localStrategy :: "kdf \<Rightarrow> db \<Rightarrow> string \<Rightarrow> string \<Rightarrow> verified" where
  "localStrategy k d username password =
     (case getUserByUsername d username of
        None \<Rightarrow> DoneFalse ''Invalid credentials''
      | Some user \<Rightarrow>
          if \<not> u_isApproved user \<and> \<not> u_isAdmin user then DoneFalse ''Account pending approval''
          else
            (case comparePasswords k password (u_password user) of
               Inl err \<Rightarrow> DoneErr err
             | Inr isValid \<Rightarrow>
                 if \<not> isValid then DoneFalse ''Invalid credentials''
                 else DoneUser user))"

text \<open>
  A response is \<open>res.status(n).send(text)\<close>, \<open>res.status(n).json(value)\<close> (status 200 when
  the code sets none), or the answer to an exception: the \<open>catch\<close> of a route sends
  status 500 with the exception's message, and \<open>next(err)\<close> hands the exception to the
  framework's error handler.
\<close>

datatype 'a response =
    Send nat string
  | Json nat 'a
  | Error500 error

text \<open>
  \<open>POST /api/login\<close>. The session holds the id of the logged-in user, if any;
  \<open>req.login\<close> stores \<open>user.id\<close>. The strategy itself fails a request whose username or
  password is empty with the message \<open>Missing credentials\<close> before it calls the verify
  callback.
\<close>

definition post_login ::
  "kdf \<Rightarrow> db \<Rightarrow> int option \<Rightarrow> string \<Rightarrow> string \<Rightarrow>
     (user \<times> role option) option response \<times> int option" where
  "post_login k d session username password =
     (case (if username = [] \<or> password = [] then DoneFalse ''Missing credentials''
            else localStrategy k d username password) of
        DoneErr err \<Rightarrow> (Error500 err, session)
      | DoneFalse msg \<Rightarrow>
          (Send 401 (if msg = [] then ''Invalid credentials'' else msg), session)
      | DoneUser user \<Rightarrow> (Json 200 (getUserWithRole d (u_id user)), Some (u_id user)))"

section \<open>Routes (server/routes.ts)\<close>

text \<open>
  A route takes the authenticated user of the request (\<open>req.user\<close>, \<open>None\<close> when
  \<open>req.isAuthenticated()\<close> is false), the database and its own parameters, and returns
  the response with the database after the request. A numeric path parameter is the
  integer \<open>parseInt\<close> returns.
\<close>

definition requireAuth ::
  "user option \<Rightarrow> 's \<Rightarrow> (user \<Rightarrow> 'a response \<times> 's) \<Rightarrow> 'a response \<times> 's" where
  "requireAuth auth unchanged next =
     (case auth of
        None \<Rightarrow> (Send 401 ''Unauthorized'', unchanged)
      | Some u \<Rightarrow> next u)"

definition requireAdmin ::
  "user option \<Rightarrow> 's \<Rightarrow> (user \<Rightarrow> 'a response \<times> 's) \<Rightarrow> 'a response \<times> 's" where
  "requireAdmin auth unchanged next =
     (case auth of
        None \<Rightarrow> (Send 403 ''Forbidden'', unchanged)
      | Some u \<Rightarrow> if \<not> u_isAdmin u then (Send 403 ''Forbidden'', unchanged) else next u)"

subsection \<open>Access requests\<close>

record access_request_body =
  b_username :: string
  b_email :: string
  b_name :: string
  b_password :: string

definition post_access_requests ::
  "kdf \<Rightarrow> (string \<Rightarrow> bool) \<Rightarrow> buffer \<Rightarrow> timestamp \<Rightarrow> db \<Rightarrow> access_request_body \<Rightarrow>
     access_request response \<times> db" where
  "post_access_requests k indexable rnd now d body =
     (case selectByText (b_username body) (getUserByUsername d (b_username body)) of
        Inl e \<Rightarrow> (Error500 e, d)
      | Inr (Some existingUser) \<Rightarrow> (Send 400 ''Username already taken'', d)
      | Inr None \<Rightarrow>
          (case selectByText (b_username body)
                  (getAccessRequestByUsername d (b_username body)) of
             Inl e \<Rightarrow> (Error500 e, d)
           | Inr (Some existingRequest) \<Rightarrow> (Send 400 ''Access request already submitted'', d)
           | Inr None \<Rightarrow>
               (case hashPassword k rnd (b_password body) of
                  Inl e \<Rightarrow> (Error500 e, d)
                | Inr hashedPassword \<Rightarrow>
                    (case createAccessRequest indexable d now
                            \<lparr>iar_username = b_username body, iar_email = b_email body,
                             iar_password = hashedPassword, iar_name = b_name body\<rparr> of
                       Inl e \<Rightarrow> (Error500 e, d)
                     | Inr (request, d') \<Rightarrow> (Json 201 request, d')))))"

text \<open>The e-mails a route sends, in order; sending is not awaited and cannot fail the
  request.\<close>

datatype email = AccessApprovedEmail string string | AccessRejectedEmail string string

definition post_access_requests_approve ::
  "user option \<Rightarrow> db \<Rightarrow> int \<Rightarrow> unit response \<times> db \<times> email list" where
  "post_access_requests_approve auth d requestId =
     requireAdmin auth (d, []) (\<lambda>_.
       case getAccessRequest d requestId of
         None \<Rightarrow> (Send 404 ''Request not found'', d, [])
       | Some request \<Rightarrow>
           if ar_status request \<noteq> ''pending'' then (Send 400 ''Request already processed'', d, [])
           else
             (case createUser d
                     \<lparr>iu_username = ar_username request, iu_password = ar_password request,
                      iu_email = ar_email request, iu_name = ar_name request,
                      iu_avatar = None, iu_isAdmin = False, iu_roleId = None,
                      iu_isApproved = True\<rparr> of
                Inl e \<Rightarrow> (Error500 e, d, [])
              | Inr (newUser, d1) \<Rightarrow>
                  let d2 = updateAccessRequestStatus d1 requestId ''approved''
                  in (Json 200 (), d2,
                      if ar_email request \<noteq> []
                      then [AccessApprovedEmail (ar_email request) (ar_username request)]
                      else [])))"

definition post_access_requests_reject ::
  "user option \<Rightarrow> db \<Rightarrow> int \<Rightarrow> unit response \<times> db \<times> email list" where
  "post_access_requests_reject auth d requestId =
     requireAdmin auth (d, []) (\<lambda>_.
       case getAccessRequest d requestId of
         None \<Rightarrow> (Send 404 ''Request not found'', d, [])
       | Some request \<Rightarrow>
           let d' = updateAccessRequestStatus d requestId ''rejected''
           in (Json 200 (), d',
               if ar_email request \<noteq> []
               then [AccessRejectedEmail (ar_email request) (ar_username request)]
               else []))"

text \<open>
  What the three routes above keep true of the two tables they write: no two access
  requests have the same username, and the username of a pending request is not a
  user's. It holds when there is no access request.
\<close>

definition requests_consistent :: "db \<Rightarrow> bool" where
  "requests_consistent d \<longleftrightarrow>
     distinct (map ar_username (accessRequests d)) \<and>
     (\<forall>r \<in> set (accessRequests d).
        ar_status r = ''pending'' \<longrightarrow> getUserByUsername d (ar_username r) = None)"

subsection \<open>Users\<close>

text \<open>JSON values; an object is the list of its properties in order.\<close>

datatype json = JNull | JBool bool | JNum int | JStr string | JObj "(string \<times> json) list"

definition nullable :: "('a \<Rightarrow> json) \<Rightarrow> 'a option \<Rightarrow> json" where
  "nullable f v = (case v of None \<Rightarrow> JNull | Some x \<Rightarrow> f x)"

definition roleObject :: "role \<Rightarrow> (string \<times> json) list" where
  "roleObject r = [(''id'', JNum (r_id r)), (''name'', JStr (r_name r)), (''color'', JStr (r_color r))]"

text \<open>A row of \<open>getAllUsers\<close> as the object the query returns: the columns of the user
  and the joined \<open>role\<close>.\<close>

definition userObject :: "user \<times> role option \<Rightarrow> (string \<times> json) list" where
  "userObject ur =
     (let u = fst ur in
      [(''id'', JNum (u_id u)), (''username'', JStr (u_username u)),
       (''password'', JStr (u_password u)), (''email'', JStr (u_email u)),
       (''name'', JStr (u_name u)), (''avatar'', nullable JStr (u_avatar u)),
       (''isAdmin'', JBool (u_isAdmin u)), (''roleId'', nullable JNum (u_roleId u)),
       (''isApproved'', JBool (u_isApproved u)),
       (''role'', nullable (JObj \<circ> roleObject) (snd ur))])"

text \<open>The rest pattern \<open>({ password, ...user }) => user\<close>: every property but the one
  named.\<close>

definition omit :: "string \<Rightarrow> (string \<times> json) list \<Rightarrow> (string \<times> json) list" where
  "omit key obj = filter (\<lambda>kv. fst kv \<noteq> key) obj"

definition get_users :: "user option \<Rightarrow> db \<Rightarrow> (string \<times> json) list list response \<times> db" where
  "get_users auth d =
     requireAuth auth d (\<lambda>_.
       let users = getAllUsers d;
           safeUsers = map (omit ''password'') (map userObject users)
       in (Json 200 safeUsers, d))"

subsection \<open>Tasks\<close>

text \<open>
  The body of \<open>PATCH /api/tasks/:id\<close> is parsed JSON with fields of
  \<open>Partial<InsertTask>\<close>. JSON has no dates: a \<open>dueDate\<close> in the body is \<open>null\<close> or a
  string. The route passes the body to \<open>updateTask\<close> as it is.
\<close>

record task_body =
  tb_title :: "string option"
  tb_description :: "string option option"
  tb_priority :: "string option"
  tb_status :: "string option"
  tb_assignedTo :: "int option option"
  tb_createdBy :: "int option"
  tb_dueDate :: "string option option"

definition asPartialTask :: "task_body \<Rightarrow> partial_task" where
  "asPartialTask body =
     \<lparr>pt_title = tb_title body, pt_description = tb_description body,
      pt_priority = tb_priority body, pt_status = tb_status body,
      pt_assignedTo = tb_assignedTo body, pt_createdBy = tb_createdBy body,
      pt_dueDate = map_option (map_option DueString) (tb_dueDate body)\<rparr>"

definition patch_tasks ::
  "user option \<Rightarrow> db \<Rightarrow> int \<Rightarrow> task_body \<Rightarrow> task option response \<times> db" where
  "patch_tasks auth d taskId body =
     requireAuth auth d (\<lambda>me.
       case getTask d taskId of
         None \<Rightarrow> (Send 404 ''Task not found'', d)
       | Some task \<Rightarrow>
           if t_assignedTo task \<noteq> Some (u_id me) \<and> \<not> u_isAdmin me then (Send 403 ''Forbidden'', d)
           else
             (case updateTask d taskId (asPartialTask body) of
                Inl e \<Rightarrow> (Error500 e, d)
              | Inr (updated, d') \<Rightarrow> (Json 200 updated, d')))"

subsection \<open>Attendance\<close>

text \<open>\<open>today\<close> is the date part of \<open>new Date().toISOString()\<close> and \<open>now\<close> the
  \<open>new Date()\<close> that is stored.\<close>

definition post_attendance_clock_in ::
  "user option \<Rightarrow> db \<Rightarrow> string \<Rightarrow> timestamp \<Rightarrow> attendance_row response \<times> db" where
  "post_attendance_clock_in auth d today now =
     requireAuth auth d (\<lambda>me.
       case getTodayAttendance d (u_id me) today of
         Some existing \<Rightarrow> (Send 400 ''Already clocked in today'', d)
       | None \<Rightarrow>
           (let (record, d') = createAttendance d
                   \<lparr>iat_userId = u_id me, iat_clockIn = now, iat_clockOut = None,
                    iat_date = today\<rparr>
            in (Json 201 record, d')))"

definition post_attendance_clock_out ::
  "user option \<Rightarrow> db \<Rightarrow> string \<Rightarrow> timestamp \<Rightarrow> attendance_row option response \<times> db" where
  "post_attendance_clock_out auth d today now =
     requireAuth auth d (\<lambda>me.
       case getTodayAttendance d (u_id me) today of
         None \<Rightarrow> (Send 400 ''Not clocked in today'', d)
       | Some existing \<Rightarrow>
           if at_clockOut existing \<noteq> None then (Send 400 ''Already clocked out today'', d)
           else
             (case updateAttendance d (at_id existing)
                     \<lparr>pa_userId = None, pa_clockIn = None, pa_clockOut = Some (Some now),
                      pa_date = None\<rparr> of
                Inl e \<Rightarrow> (Error500 e, d)
              | Inr (updated, d') \<Rightarrow> (Json 200 updated, d')))"

text \<open>The state of a user's attendance on a date, read off the table as the routes
  read it.\<close>

datatype attendance_state = Absent | ClockedIn | ClockedOut

definition attendanceState :: "db \<Rightarrow> int \<Rightarrow> string \<Rightarrow> attendance_state" where
  "attendanceState d userId date =
     (case getTodayAttendance d userId date of
        None \<Rightarrow> Absent
      | Some r \<Rightarrow> if at_clockOut r = None then ClockedIn else ClockedOut)"

section \<open>A small database\<close>

text \<open>Rows and a database on which the definitions are run: an administrator, an
  approved member of staff with a role, a user who is neither approved nor an
  administrator, a pending and a rejected access request, two messages, a task
  assigned to the member of staff, and her open attendance record.\<close>

definition admin :: user where
  "admin = \<lparr>u_id = 1, u_username = ''grovefanreal'', u_password = ''00.00'',
            u_email = ''admin@grovefan.com'', u_name = ''Admin'', u_avatar = None,
            u_isAdmin = True, u_roleId = None, u_isApproved = True\<rparr>"

definition alice :: user where
  "alice = \<lparr>u_id = 2, u_username = ''alice'', u_password = ''secret-hash'',
            u_email = ''alice@example.com'', u_name = ''Alice'', u_avatar = None,
            u_isAdmin = False, u_roleId = Some 7, u_isApproved = True\<rparr>"

definition bob :: user where
  "bob = \<lparr>u_id = 3, u_username = ''bob'', u_password = ''00.00'',
          u_email = ''bob@example.com'', u_name = ''Bob'', u_avatar = None,
          u_isAdmin = False, u_roleId = Some 7, u_isApproved = False\<rparr>"

definition staff :: role where
  "staff = \<lparr>r_id = 7, r_name = ''Staff'', r_color = ''#00ff00''\<rparr>"

definition carol_request :: access_request where
  "carol_request = \<lparr>ar_id = 1, ar_username = ''carol'', ar_email = ''carol@example.com'',
      ar_password = ''00.00'', ar_name = ''Carol'', ar_status = ''pending'',
      ar_requestedAt = 5\<rparr>"

definition dave_request :: access_request where
  "dave_request = \<lparr>ar_id = 2, ar_username = ''dave'', ar_email = ''dave@example.com'',
      ar_password = ''00.00'', ar_name = ''Dave'', ar_status = ''rejected'',
      ar_requestedAt = 6\<rparr>"

definition hello_msg :: message where
  "hello_msg = \<lparr>m_id = 1, m_senderId = 2, m_content = Some ''hello'', m_messageType = ''text'',
      m_mediaUrl = None, m_isDeleted = False, m_createdAt = 20\<rparr>"

definition welcome_msg :: message where
  "welcome_msg = \<lparr>m_id = 2, m_senderId = 1, m_content = Some ''welcome'', m_messageType = ''text'',
      m_mediaUrl = None, m_isDeleted = False, m_createdAt = 10\<rparr>"

definition ship_report :: task where
  "ship_report = \<lparr>t_id = 1, t_title = ''Ship report'', t_description = None,
      t_priority = ''high'', t_status = ''pending'', t_assignedTo = Some 2, t_createdBy = 1,
      t_dueDate = None, t_createdAt = 30\<rparr>"

definition alice_monday :: attendance_row where
  "alice_monday = \<lparr>at_id = 1, at_userId = 2, at_clockIn = 100, at_clockOut = None,
      at_date = ''2024-01-01''\<rparr>"

definition demo_db :: db where
  "demo_db = \<lparr>users = [admin, alice, bob], roles = [staff],
      accessRequests = [carol_request, dave_request], messages = [hello_msg, welcome_msg],
      tasks = [ship_report], attendance = [alice_monday],
      users_seq = 4, accessRequests_seq = 3, attendance_seq = 2\<rparr>"


lemmas demo_defs = demo_db_def admin_def alice_def bob_def staff_def carol_request_def
  dave_request_def hello_msg_def welcome_msg_def ship_report_def alice_monday_def

section \<open>Properties of the credential store\<close>

subsection \<open>Hex encoding and splitting\<close>

lemma all_nibbles:
  "\<forall>n \<in> set [0..<16]. hexVal (hexDigit n) = Some n \<and> hexDigit n \<noteq> CHR ''.''"
  by code_simp

lemma hexVal_hexDigit: "n < 16 \<Longrightarrow> hexVal (hexDigit n) = Some n"
  using all_nibbles by simp

lemma hexDigit_not_dot: "n < 16 \<Longrightarrow> hexDigit n \<noteq> CHR ''.''"
  using all_nibbles by simp

lemma byte_nibbles: "unat (b::byte) div 16 < 16" "unat b mod 16 < 16"
proof -
  have "unat b < 256" using unsigned_less [of b] by simp
  then show "unat b div 16 < 16" by simp
  show "unat b mod 16 < 16" by simp
qed

lemma fromHex_toHex: "fromHex (toHex bs) = bs"
proof (induction bs)
  case Nil
  show ?case by simp
next
  case (Cons b bs)
  have "word_of_nat (16 * (unat b div 16) + unat b mod 16) = b"
    by simp
  with Cons show ?case
    by (simp add: hexVal_hexDigit byte_nibbles)
qed

lemma dot_notin_toHex: "CHR ''.'' \<notin> set (toHex bs)"
proof (induction bs)
  case Nil
  show ?case by simp
next
  case (Cons b bs)
  have "hexDigit (unat b div 16) \<noteq> CHR ''.''" "hexDigit (unat b mod 16) \<noteq> CHR ''.''"
    by (simp_all add: hexDigit_not_dot byte_nibbles)
  with Cons show ?case by auto
qed

lemma split_not_Nil: "split sep s \<noteq> []"
  by (induction s) (auto split: list.splits)

lemma split_no_sep: "sep \<notin> set s \<Longrightarrow> split sep s = [s]"
  by (induction s) auto

lemma split_append_sep:
  "sep \<notin> set a \<Longrightarrow> split sep (a @ sep # b) = a # split sep b"
  by (induction a) auto

lemma hd_split: "hd (split sep s) = takeWhile (\<lambda>c. c \<noteq> sep) s"
  by (induction s) (auto simp: split_not_Nil split: list.splits)

lemma takeWhile_before_sep:
  "sep \<notin> set a \<Longrightarrow> takeWhile (\<lambda>c. c \<noteq> sep) (a @ sep # b) = a"
  by (induction a) auto

lemma dropWhile_before_sep:
  "sep \<notin> set a \<Longrightarrow> dropWhile (\<lambda>c. c \<noteq> sep) (a @ sep # b) = sep # b"
  by (induction a) auto

lemma takeWhile_no_sep: "sep \<notin> set a \<Longrightarrow> takeWhile (\<lambda>c. c \<noteq> sep) a = a"
  by (induction a) auto

lemma element_split_1:
  "element (split sep s) (Suc 0) =
     (if sep \<in> set s then Some (takeWhile (\<lambda>c. c \<noteq> sep) (tl (dropWhile (\<lambda>c. c \<noteq> sep) s)))
      else None)"
proof (cases "sep \<in> set s")
  case False
  then show ?thesis by (simp add: split_no_sep element_def)
next
  case True
  then obtain a b where s: "s = a @ sep # b" and a: "sep \<notin> set a"
    by (meson split_list_first)
  have "dropWhile (\<lambda>c. c \<noteq> sep) s = sep # b"
    using a by (simp add: s dropWhile_before_sep)
  moreover have "element (a # split sep b) (Suc 0) = Some (hd (split sep b))"
    using split_not_Nil [of sep b] by (cases "split sep b") (simp_all add: element_def)
  moreover have "split sep s = a # split sep b"
    using a by (simp add: s split_append_sep)
  ultimately show ?thesis
    using True by (simp add: hd_split)
qed

subsection \<open>hashPassword and comparePasswords\<close>

lemma hashPassword_eq:
  "hashPassword k rnd pw = Inr (toHex (k pw (toHex rnd) 64) @ CHR ''.'' # toHex rnd)"
  by (simp add: hashPassword_def scryptAsync_def Let_def)

lemma comparePasswords_eq:
  "comparePasswords k supplied stored =
     (if CHR ''.'' \<notin> set stored then Inl TypeError
      else timingSafeEqual (fromHex (takeWhile (\<lambda>c. c \<noteq> CHR ''.'') stored))
             (k supplied (takeWhile (\<lambda>c. c \<noteq> CHR ''.'')
                 (tl (dropWhile (\<lambda>c. c \<noteq> CHR ''.'') stored))) 64))"
  by (simp add: comparePasswords_def Let_def element_split_1 hd_split scryptAsync_def)

lemma compare_after_hash:
  "comparePasswords k pw' (toHex (k pw (toHex rnd) 64) @ CHR ''.'' # toHex rnd) =
     timingSafeEqual (k pw (toHex rnd) 64) (k pw' (toHex rnd) 64)"
  by (simp add: comparePasswords_eq dot_notin_toHex takeWhile_before_sep dropWhile_before_sep
      takeWhile_no_sep fromHex_toHex)

lemma finite_keys: "finite {bs :: buffer. length bs = n}"
  using finite_lists_length_eq [of "UNIV :: byte set" n] by simp

lemma kdf_collision:
  assumes "kdf_ok k"
  shows "\<exists>pw pw'. pw \<noteq> pw' \<and> k pw s 64 = k pw' s 64"
proof -
  have "range (\<lambda>p. k p s 64) \<subseteq> {bs. length bs = 64}"
    using assms by (auto simp: kdf_ok_def)
  then have "finite (range (\<lambda>p. k p s 64))"
    using finite_keys finite_subset by blast
  moreover have "infinite (UNIV :: string set)"
    by (rule infinite_UNIV_listI)
  ultimately have "\<not> inj (\<lambda>p. k p s 64)"
    using finite_imageD by blast
  then show ?thesis
    by (auto simp: inj_on_def)
qed

lemma demo_kdf_ok: "kdf_ok demo_kdf"
  by (auto simp: kdf_ok_def demo_kdf_def)

text \<open>
  C1, as the code has it. Hashing a password always returns a stored value, and checking
  the same password against it returns true. Checking another password \<open>pw'\<close> returns
  true exactly when scrypt derives the same 64-byte key from \<open>pw'\<close> as from the
  original password under the stored salt, and false otherwise: it returns false for
  every candidate whose derived key differs, and it never throws.
\<close>

theorem compare_after_hashPassword:
  assumes "kdf_ok k"
  shows "\<exists>stored. hashPassword k rnd pw = Inr stored \<and>
      comparePasswords k pw stored = Inr True \<and>
      comparePasswords k pw' stored = Inr (k pw' (toHex rnd) 64 = k pw (toHex rnd) 64)"
proof -
  have len: "length (k p (toHex rnd) 64) = 64" for p
    using assms by (simp add: kdf_ok_def)
  have "comparePasswords k p (toHex (k pw (toHex rnd) 64) @ CHR ''.'' # toHex rnd) =
          Inr (k p (toHex rnd) 64 = k pw (toHex rnd) 64)" for p
    by (auto simp: compare_after_hash timingSafeEqual_def len)
  then show ?thesis
    by (simp add: hashPassword_eq)
qed

theorem compare_after_hashPassword_witness:
  "kdf_ok demo_kdf \<and>
   (\<exists>stored. hashPassword demo_kdf [1, 2] ''pw'' = Inr stored \<and>
      comparePasswords demo_kdf ''pw'' stored = Inr True \<and>
      comparePasswords demo_kdf ''pW'' stored = Inr False)"
proof -
  have ne: "(demo_kdf ''pW'' (toHex [1, 2]) 64 = demo_kdf ''pw'' (toHex [1, 2]) 64) = False"
    by code_simp
  from compare_after_hashPassword [OF demo_kdf_ok, of "[1, 2]" "''pw''" "''pW''"]
  show ?thesis
    unfolding ne using demo_kdf_ok by blast
qed

text \<open>
  C1 as stated asks that every password different from the original is rejected. No key
  derivation with a 64-byte result does that: there are infinitely many passwords and
  finitely many keys, so two different passwords share a key under any given salt, and
  the second is accepted against the hash of the first.
\<close>

theorem differing_password_counterexample:
  "\<not> (\<exists>k rnd. kdf_ok k \<and>
        (\<forall>pw pw' stored. pw' \<noteq> pw \<and> hashPassword k rnd pw = Inr stored \<longrightarrow>
           comparePasswords k pw' stored = Inr False))"
proof
  assume "\<exists>k rnd. kdf_ok k \<and>
        (\<forall>pw pw' stored. pw' \<noteq> pw \<and> hashPassword k rnd pw = Inr stored \<longrightarrow>
           comparePasswords k pw' stored = Inr False)"
  then obtain k rnd where ok: "kdf_ok k"
    and all: "\<And>pw pw' stored. pw' \<noteq> pw \<Longrightarrow> hashPassword k rnd pw = Inr stored \<Longrightarrow>
           comparePasswords k pw' stored = Inr False"
    by blast
  obtain pw pw' where ne: "pw \<noteq> pw'" and eq: "k pw (toHex rnd) 64 = k pw' (toHex rnd) 64"
    using kdf_collision [OF ok] by blast
  have "comparePasswords k pw' (toHex (k pw (toHex rnd) 64) @ CHR ''.'' # toHex rnd) = Inr True"
    using eq by (simp add: compare_after_hash timingSafeEqual_def)
  moreover have "comparePasswords k pw' (toHex (k pw (toHex rnd) 64) @ CHR ''.'' # toHex rnd) = Inr False"
    using all [OF _ hashPassword_eq, of pw' pw] ne by simp
  ultimately show False by simp
qed

text \<open>
  C2, as the code has it. \<open>comparePasswords\<close> does not return false on a malformed stored
  value, it throws: a \<open>TypeError\<close> when the stored value has no dot (the salt is
  undefined), a \<open>RangeError\<close> when the part before the first dot does not decode, as
  hex, to exactly 64 bytes. It returns a boolean in the remaining case only, and then
  the boolean says whether the decoded hash is the key derived from the candidate and
  the part between the first and the second dot.
\<close>

theorem comparePasswords_malformed:
  assumes "kdf_ok k"
  shows "comparePasswords k supplied stored =
     (if CHR ''.'' \<notin> set stored then Inl TypeError
      else if length (fromHex (takeWhile (\<lambda>c. c \<noteq> CHR ''.'') stored)) \<noteq> 64 then Inl RangeError
      else Inr (fromHex (takeWhile (\<lambda>c. c \<noteq> CHR ''.'') stored) =
                k supplied (takeWhile (\<lambda>c. c \<noteq> CHR ''.'')
                   (tl (dropWhile (\<lambda>c. c \<noteq> CHR ''.'') stored))) 64))"
proof -
  have "length (k supplied s 64) = 64" for s
    using assms by (simp add: kdf_ok_def)
  then show ?thesis
    by (simp add: comparePasswords_eq timingSafeEqual_def)
qed

theorem comparePasswords_malformed_witness:
  "comparePasswords demo_kdf ''pw'' ''deadbeef'' = Inl TypeError \<and>
   comparePasswords demo_kdf ''pw'' ''deadbeef.0102'' = Inl RangeError \<and>
   comparePasswords demo_kdf ''pw'' ''xyz.0102'' = Inl RangeError"
proof -
  have "length (fromHex ''deadbeef'') \<noteq> 64" "length (fromHex ''xyz'') \<noteq> 64"
    by (simp_all add: hexVal_def)
  then show ?thesis
    using comparePasswords_malformed [OF demo_kdf_ok, of "''pw''" "''deadbeef''"]
      comparePasswords_malformed [OF demo_kdf_ok, of "''pw''" "''deadbeef.0102''"]
      comparePasswords_malformed [OF demo_kdf_ok, of "''pw''" "''xyz.0102''"]
    by simp
qed

text \<open>
  C2 as stated fails on a stored value without a dot: whatever the key derivation, the
  comparison throws and does not return false.
\<close>

theorem comparePasswords_throws_counterexample:
  "(\<forall>k. comparePasswords k ''pw'' ''deadbeef'' = Inl TypeError) \<and>
   (\<forall>k. comparePasswords k ''pw'' ''deadbeef'' \<noteq> Inr False)"
  by (simp add: comparePasswords_eq)

section \<open>Properties of the storage and the routes\<close>

subsection \<open>Lists\<close>

lemma find_map_same:
  "(\<And>x. P (f x) = P x) \<Longrightarrow> find P (map f xs) = map_option f (find P xs)"
  by (induction xs) auto

lemma find_Some_holds: "find P xs = Some x \<Longrightarrow> P x"
  by (induction xs) (auto split: if_splits)

lemma find_Some_in: "find P xs = Some x \<Longrightarrow> x \<in> set xs"
  by (induction xs) (auto split: if_splits)

lemma find_append_new:
  "find P xs = None \<Longrightarrow> P x \<Longrightarrow> find P (xs @ [x]) = Some x"
  by (induction xs) (auto split: if_splits)

lemma find_filter_out: "find (\<lambda>x. f x = i) (filter (\<lambda>x. f x \<noteq> i) xs) = None"
  by (simp add: find_None_iff)

subsection \<open>Login\<close>

text \<open>
  C6. A login for a user whose \<open>isApproved\<close> and \<open>isAdmin\<close> flags are both false is
  turned down by the strategy with \<open>Account pending approval\<close>, whatever the password:
  \<open>POST /api/login\<close> answers 401 and leaves the session as it was. A user whom the
  strategy accepts is approved or an administrator, and a login that answers 200 has
  stored in the session the id of such a user, whose password compared true.
\<close>

theorem pending_user_cannot_log_in:
  "(\<forall>u. getUserByUsername d username = Some u \<and> \<not> u_isApproved u \<and> \<not> u_isAdmin u \<longrightarrow>
      localStrategy k d username password = DoneFalse ''Account pending approval'' \<and>
      post_login k d session username password =
        (Send 401 (if username = [] \<or> password = [] then ''Missing credentials''
                   else ''Account pending approval''), session)) \<and>
   (\<forall>u. localStrategy k d username password = DoneUser u \<longrightarrow>
      u_isApproved u \<or> u_isAdmin u) \<and>
   (\<forall>body session'. post_login k d session username password = (Json 200 body, session') \<longrightarrow>
      (\<exists>u. getUserByUsername d username = Some u \<and> session' = Some (u_id u) \<and>
           (u_isApproved u \<or> u_isAdmin u) \<and>
           comparePasswords k password (u_password u) = Inr True))"
proof (intro conjI allI impI)
  fix u
  assume "getUserByUsername d username = Some u \<and> \<not> u_isApproved u \<and> \<not> u_isAdmin u"
  then show "localStrategy k d username password = DoneFalse ''Account pending approval''"
    and "post_login k d session username password =
        (Send 401 (if username = [] \<or> password = [] then ''Missing credentials''
                   else ''Account pending approval''), session)"
    by (simp_all add: localStrategy_def post_login_def)
next
  fix u
  assume "localStrategy k d username password = DoneUser u"
  then show "u_isApproved u \<or> u_isAdmin u"
    by (auto simp: localStrategy_def split: option.splits if_splits sum.splits)
next
  fix body session'
  assume "post_login k d session username password = (Json 200 body, session')"
  then show "\<exists>u. getUserByUsername d username = Some u \<and> session' = Some (u_id u) \<and>
           (u_isApproved u \<or> u_isAdmin u) \<and>
           comparePasswords k password (u_password u) = Inr True"
    by (auto simp: post_login_def localStrategy_def
        split: option.splits if_splits sum.splits verified.splits)
qed

theorem pending_user_cannot_log_in_witness:
  "getUserByUsername demo_db ''bob'' = Some bob \<and> \<not> u_isApproved bob \<and> \<not> u_isAdmin bob \<and>
   localStrategy demo_kdf demo_db ''bob'' ''pw'' = DoneFalse ''Account pending approval'' \<and>
   post_login demo_kdf demo_db None ''bob'' ''pw'' = (Send 401 ''Account pending approval'', None)"
proof -
  have bob: "getUserByUsername demo_db ''bob'' = Some bob \<and> \<not> u_isApproved bob \<and> \<not> u_isAdmin bob"
    by (simp add: getUserByUsername_def demo_defs)
  with pending_user_cannot_log_in [of demo_db "''bob''" demo_kdf "''pw''" None]
  show ?thesis
    by simp
qed

subsection \<open>Creating an access request\<close>

lemma textParameter_toHex: "textParameter (toHex bs)"
proof -
  have "\<forall>n \<in> set [0..<16]. hexDigit n \<noteq> CHR 0x00"
    by code_simp
  then have digit: "hexDigit n \<noteq> CHR 0x00" if "n < 16" for n
    using that by simp
  show ?thesis
    unfolding textParameter_def
  proof (induction bs)
    case Nil
    show ?case by simp
  next
    case (Cons b bs)
    have "hexDigit (unat b div 16) \<noteq> CHR 0x00" "hexDigit (unat b mod 16) \<noteq> CHR 0x00"
      by (simp_all add: digit byte_nibbles)
    with Cons show ?case by auto
  qed
qed

lemma textParameter_hashed: "textParameter (toHex a @ CHR ''.'' # toHex b)"
  using textParameter_toHex [of a] textParameter_toHex [of b]
  by (simp add: textParameter_def)

lemma request_rejected_username:
  assumes "\<not> textParameter (b_username body)"
  shows "post_access_requests k indexable rnd now d body = (Error500 InvalidByteSequence, d)"
  using assms by (simp add: post_access_requests_def selectByText_def)

lemma request_user_exists:
  assumes "textParameter (b_username body)" "getUserByUsername d (b_username body) \<noteq> None"
  shows "post_access_requests k indexable rnd now d body = (Send 400 ''Username already taken'', d)"
  using assms by (auto simp: post_access_requests_def selectByText_def)

lemma request_request_exists:
  assumes "textParameter (b_username body)" "getUserByUsername d (b_username body) = None"
    "getAccessRequestByUsername d (b_username body) \<noteq> None"
  shows "post_access_requests k indexable rnd now d body =
     (Send 400 ''Access request already submitted'', d)"
  using assms by (auto simp: post_access_requests_def selectByText_def)

lemma request_rejected_value:
  assumes "textParameter (b_username body)" "getUserByUsername d (b_username body) = None"
    "getAccessRequestByUsername d (b_username body) = None"
    "\<not> textParameter (b_email body) \<or> \<not> textParameter (b_name body) \<or>
     \<not> indexable (b_username body)"
  shows "\<exists>e. post_access_requests k indexable rnd now d body = (Error500 e, d)"
  using assms
  by (auto simp: post_access_requests_def selectByText_def hashPassword_eq
      createAccessRequest_def)

lemma request_created:
  assumes "textParameter (b_username body)" "getUserByUsername d (b_username body) = None"
    "getAccessRequestByUsername d (b_username body) = None"
    "textParameter (b_email body)" "textParameter (b_name body)" "indexable (b_username body)"
  shows "post_access_requests k indexable rnd now d body =
     (Json 201
        \<lparr>ar_id = accessRequests_seq d, ar_username = b_username body, ar_email = b_email body,
         ar_password = toHex (k (b_password body) (toHex rnd) 64) @ CHR ''.'' # toHex rnd,
         ar_name = b_name body, ar_status = ''pending'', ar_requestedAt = now\<rparr>,
      d\<lparr>accessRequests := accessRequests d @
          [\<lparr>ar_id = accessRequests_seq d, ar_username = b_username body, ar_email = b_email body,
            ar_password = toHex (k (b_password body) (toHex rnd) 64) @ CHR ''.'' # toHex rnd,
            ar_name = b_name body, ar_status = ''pending'', ar_requestedAt = now\<rparr>],
        accessRequests_seq := accessRequests_seq d + 1\<rparr>)"
proof -
  have "\<not> (\<exists>r \<in> set (accessRequests d). ar_username r = b_username body)"
    using assms(3) by (simp add: getAccessRequestByUsername_def find_None_iff)
  then show ?thesis
    using assms
    by (simp add: post_access_requests_def selectByText_def hashPassword_eq
        createAccessRequest_def textParameter_hashed Let_def)
qed

text \<open>
  C9, as the code has it. \<open>POST /api/access-requests\<close> answers 400 and changes nothing
  when a user has the username, and also when an access request with the username exists,
  whatever the status of that request. When neither exists and the database accepts the
  values (no U+0000 in the username, the e-mail or the name, and a username that fits
  the unique index), it answers 201 with the new request, which is appended to the table
  with status \<open>pending\<close>, the fields of the body and the hashed password. When the
  database rejects a value, the route answers 500 and stores nothing: at the first lookup
  for a username that holds U+0000, at the insert otherwise.
\<close>

theorem access_request_created_or_duplicate:
  "(\<not> textParameter (b_username body) \<longrightarrow>
      post_access_requests k indexable rnd now d body = (Error500 InvalidByteSequence, d)) \<and>
   (textParameter (b_username body) \<and> getUserByUsername d (b_username body) \<noteq> None \<longrightarrow>
      post_access_requests k indexable rnd now d body =
        (Send 400 ''Username already taken'', d)) \<and>
   (textParameter (b_username body) \<and> getUserByUsername d (b_username body) = None \<and>
    getAccessRequestByUsername d (b_username body) \<noteq> None \<longrightarrow>
      post_access_requests k indexable rnd now d body =
        (Send 400 ''Access request already submitted'', d)) \<and>
   (textParameter (b_username body) \<and> getUserByUsername d (b_username body) = None \<and>
    getAccessRequestByUsername d (b_username body) = None \<and>
    (\<not> textParameter (b_email body) \<or> \<not> textParameter (b_name body) \<or>
     \<not> indexable (b_username body)) \<longrightarrow>
      (\<exists>e. post_access_requests k indexable rnd now d body = (Error500 e, d))) \<and>
   (textParameter (b_username body) \<and> getUserByUsername d (b_username body) = None \<and>
    getAccessRequestByUsername d (b_username body) = None \<and>
    textParameter (b_email body) \<and> textParameter (b_name body) \<and>
    indexable (b_username body) \<longrightarrow>
      (\<exists>request d'.
         post_access_requests k indexable rnd now d body = (Json 201 request, d') \<and>
         accessRequests d' = accessRequests d @ [request] \<and>
         getAccessRequestByUsername d' (b_username body) = Some request \<and>
         ar_username request = b_username body \<and> ar_email request = b_email body \<and>
         ar_name request = b_name body \<and> ar_status request = ''pending'' \<and>
         hashPassword k rnd (b_password body) = Inr (ar_password request))) \<and>
   (getUserByUsername d (b_username body) \<noteq> None \<longleftrightarrow>
      (\<exists>u \<in> set (users d). u_username u = b_username body)) \<and>
   (getAccessRequestByUsername d (b_username body) \<noteq> None \<longleftrightarrow>
      (\<exists>r \<in> set (accessRequests d). ar_username r = b_username body)) \<and>
   (textParameter (b_username body) \<longleftrightarrow> CHR 0x00 \<notin> set (b_username body))"
proof (intro conjI impI)
  assume "\<not> textParameter (b_username body)"
  then show "post_access_requests k indexable rnd now d body =
      (Error500 InvalidByteSequence, d)"
    by (rule request_rejected_username)
next
  assume "textParameter (b_username body) \<and> getUserByUsername d (b_username body) \<noteq> None"
  then show "post_access_requests k indexable rnd now d body =
      (Send 400 ''Username already taken'', d)"
    by (simp add: request_user_exists)
next
  assume "textParameter (b_username body) \<and> getUserByUsername d (b_username body) = None \<and>
    getAccessRequestByUsername d (b_username body) \<noteq> None"
  then show "post_access_requests k indexable rnd now d body =
        (Send 400 ''Access request already submitted'', d)"
    by (simp add: request_request_exists)
next
  assume "textParameter (b_username body) \<and> getUserByUsername d (b_username body) = None \<and>
    getAccessRequestByUsername d (b_username body) = None \<and>
    (\<not> textParameter (b_email body) \<or> \<not> textParameter (b_name body) \<or>
     \<not> indexable (b_username body))"
  then show "\<exists>e. post_access_requests k indexable rnd now d body = (Error500 e, d)"
    using request_rejected_value [of body d indexable k rnd now] by blast
next
  assume ok: "textParameter (b_username body) \<and> getUserByUsername d (b_username body) = None \<and>
    getAccessRequestByUsername d (b_username body) = None \<and>
    textParameter (b_email body) \<and> textParameter (b_name body) \<and>
    indexable (b_username body)"
  then have "find (\<lambda>x. ar_username x = b_username body) (accessRequests d) = None"
    by (simp add: getAccessRequestByUsername_def)
  then show "\<exists>request d'.
         post_access_requests k indexable rnd now d body = (Json 201 request, d') \<and>
         accessRequests d' = accessRequests d @ [request] \<and>
         getAccessRequestByUsername d' (b_username body) = Some request \<and>
         ar_username request = b_username body \<and> ar_email request = b_email body \<and>
         ar_name request = b_name body \<and> ar_status request = ''pending'' \<and>
         hashPassword k rnd (b_password body) = Inr (ar_password request)"
    using ok
    by (simp add: request_created getAccessRequestByUsername_def find_append_new
        hashPassword_eq)
next
  show "getUserByUsername d (b_username body) \<noteq> None \<longleftrightarrow>
      (\<exists>u \<in> set (users d). u_username u = b_username body)"
    by (auto simp: getUserByUsername_def find_None_iff)
next
  show "getAccessRequestByUsername d (b_username body) \<noteq> None \<longleftrightarrow>
      (\<exists>r \<in> set (accessRequests d). ar_username r = b_username body)"
    by (auto simp: getAccessRequestByUsername_def find_None_iff)
next
  show "textParameter (b_username body) \<longleftrightarrow> CHR 0x00 \<notin> set (b_username body)"
    by (simp add: textParameter_def)
qed

theorem access_request_created_or_duplicate_witness:
  "getUserByUsername demo_db ''alice'' \<noteq> None \<and>
   post_access_requests demo_kdf (\<lambda>s. length s < 1000) [1, 2] 50 demo_db
     \<lparr>b_username = ''alice'', b_email = ''a@example.com'', b_name = ''A'', b_password = ''pw''\<rparr>
     = (Send 400 ''Username already taken'', demo_db) \<and>
   getUserByUsername demo_db ''carol'' = None \<and>
   getAccessRequestByUsername demo_db ''carol'' \<noteq> None \<and>
   post_access_requests demo_kdf (\<lambda>s. length s < 1000) [1, 2] 50 demo_db
     \<lparr>b_username = ''carol'', b_email = ''c@example.com'', b_name = ''C'', b_password = ''pw''\<rparr>
     = (Send 400 ''Access request already submitted'', demo_db) \<and>
   post_access_requests demo_kdf (\<lambda>s. length s < 1000) [1, 2] 50 demo_db
     \<lparr>b_username = [CHR ''e'', CHR 0x00], b_email = ''e@example.com'', b_name = ''E'',
      b_password = ''pw''\<rparr>
     = (Error500 InvalidByteSequence, demo_db) \<and>
   (\<exists>e. post_access_requests demo_kdf (\<lambda>s. length s < 1000) [1, 2] 50 demo_db
     \<lparr>b_username = ''erin'', b_email = ''e@example.com'', b_name = [CHR 0x00],
      b_password = ''pw''\<rparr>
     = (Error500 e, demo_db)) \<and>
   getUserByUsername demo_db ''erin'' = None \<and>
   getAccessRequestByUsername demo_db ''erin'' = None \<and>
   (\<exists>request d'.
      post_access_requests demo_kdf (\<lambda>s. length s < 1000) [1, 2] 50 demo_db
        \<lparr>b_username = ''erin'', b_email = ''e@example.com'', b_name = ''E'', b_password = ''pw''\<rparr>
        = (Json 201 request, d') \<and>
      accessRequests d' = [carol_request, dave_request, request] \<and>
      ar_username request = ''erin'' \<and> ar_status request = ''pending'')"
proof -
  let ?fits = "\<lambda>s::string. length s < 1000"
  have a: "getUserByUsername demo_db ''alice'' \<noteq> None"
    and c: "getUserByUsername demo_db ''carol'' = None"
      "getAccessRequestByUsername demo_db ''carol'' \<noteq> None"
    and e: "getUserByUsername demo_db ''erin'' = None"
      "getAccessRequestByUsername demo_db ''erin'' = None"
    by (simp_all add: getUserByUsername_def getAccessRequestByUsername_def demo_defs)
  have t: "textParameter ''alice''" "textParameter ''carol''" "textParameter ''erin''"
    "textParameter ''e@example.com''" "textParameter ''E''"
    "\<not> textParameter [CHR ''e'', CHR 0x00]" "\<not> textParameter [CHR 0x00]"
    by (simp_all add: textParameter_def)
  have reqs: "accessRequests demo_db = [carol_request, dave_request]"
    by (simp add: demo_db_def)
  have 1: "post_access_requests demo_kdf ?fits [1, 2] 50 demo_db
     \<lparr>b_username = ''alice'', b_email = ''a@example.com'', b_name = ''A'', b_password = ''pw''\<rparr>
     = (Send 400 ''Username already taken'', demo_db)"
    using access_request_created_or_duplicate [of
        "\<lparr>b_username = ''alice'', b_email = ''a@example.com'', b_name = ''A'', b_password = ''pw''\<rparr>"
        demo_kdf ?fits "[1, 2]" 50 demo_db] a t
    by simp
  have 2: "post_access_requests demo_kdf ?fits [1, 2] 50 demo_db
     \<lparr>b_username = ''carol'', b_email = ''c@example.com'', b_name = ''C'', b_password = ''pw''\<rparr>
     = (Send 400 ''Access request already submitted'', demo_db)"
    using access_request_created_or_duplicate [of
        "\<lparr>b_username = ''carol'', b_email = ''c@example.com'', b_name = ''C'', b_password = ''pw''\<rparr>"
        demo_kdf ?fits "[1, 2]" 50 demo_db] c t
    by simp
  have 3: "post_access_requests demo_kdf ?fits [1, 2] 50 demo_db
     \<lparr>b_username = [CHR ''e'', CHR 0x00], b_email = ''e@example.com'', b_name = ''E'',
      b_password = ''pw''\<rparr>
     = (Error500 InvalidByteSequence, demo_db)"
    using access_request_created_or_duplicate [of
        "\<lparr>b_username = [CHR ''e'', CHR 0x00], b_email = ''e@example.com'', b_name = ''E'',
          b_password = ''pw''\<rparr>"
        demo_kdf ?fits "[1, 2]" 50 demo_db] t
    by simp
  have 4: "\<exists>e. post_access_requests demo_kdf ?fits [1, 2] 50 demo_db
     \<lparr>b_username = ''erin'', b_email = ''e@example.com'', b_name = [CHR 0x00],
      b_password = ''pw''\<rparr>
     = (Error500 e, demo_db)"
    using access_request_created_or_duplicate [of
        "\<lparr>b_username = ''erin'', b_email = ''e@example.com'', b_name = [CHR 0x00],
          b_password = ''pw''\<rparr>"
        demo_kdf ?fits "[1, 2]" 50 demo_db] e t
    by simp
  have 5: "\<exists>request d'.
      post_access_requests demo_kdf ?fits [1, 2] 50 demo_db
        \<lparr>b_username = ''erin'', b_email = ''e@example.com'', b_name = ''E'', b_password = ''pw''\<rparr>
        = (Json 201 request, d') \<and>
      accessRequests d' = [carol_request, dave_request, request] \<and>
      ar_username request = ''erin'' \<and> ar_status request = ''pending''"
    using access_request_created_or_duplicate [of
        "\<lparr>b_username = ''erin'', b_email = ''e@example.com'', b_name = ''E'', b_password = ''pw''\<rparr>"
        demo_kdf ?fits "[1, 2]" 50 demo_db] e t
    by (simp add: reqs) blast
  from a c e 1 2 3 4 5 show ?thesis
    by blast
qed

text \<open>
  C9 as stated gives an existing user and a pending request as the causes of a 400, and a
  201 for a username that is free. The lookup by username does not look at the status:
  \<open>dave\<close>, whose only request was rejected and who is no user, gets a 400.
\<close>

theorem rejected_request_blocks_counterexample:
  "textParameter ''dave'' \<and> getUserByUsername demo_db ''dave'' = None \<and>
   filter (\<lambda>r. ar_username r = ''dave'' \<and> ar_status r = ''pending'') (accessRequests demo_db) = [] \<and>
   post_access_requests demo_kdf (\<lambda>s. True) [] 50 demo_db
     \<lparr>b_username = ''dave'', b_email = ''dave@example.com'', b_name = ''Dave'',
      b_password = ''pw''\<rparr> = (Send 400 ''Access request already submitted'', demo_db)"
  by (simp add: demo_defs getUserByUsername_def post_access_requests_def selectByText_def
      textParameter_def getAccessRequestByUsername_def)

subsection \<open>Approving an access request\<close>

lemma getAccessRequest_id: "getAccessRequest d i = Some r \<Longrightarrow> ar_id r = i"
  by (auto simp: getAccessRequest_def dest: find_Some_holds)

lemma approve_processed:
  assumes "u_isAdmin a" "getAccessRequest d i = Some r" "ar_status r \<noteq> ''pending''"
  shows "post_access_requests_approve (Some a) d i = (Send 400 ''Request already processed'', d, [])"
  using assms by (simp add: post_access_requests_approve_def requireAdmin_def)

lemma approve_pending:
  assumes "u_isAdmin a" "getAccessRequest d i = Some r" "ar_status r = ''pending''"
    "getUserByUsername d (ar_username r) = None"
  shows "post_access_requests_approve (Some a) d i =
     (Json 200 (),
      d\<lparr>users := users d @
          [\<lparr>u_id = users_seq d, u_username = ar_username r, u_password = ar_password r,
            u_email = ar_email r, u_name = ar_name r, u_avatar = None, u_isAdmin = False,
            u_roleId = None, u_isApproved = True\<rparr>],
        users_seq := users_seq d + 1,
        accessRequests :=
          map (\<lambda>x. if ar_id x = i then x\<lparr>ar_status := ''approved''\<rparr> else x) (accessRequests d)\<rparr>,
      if ar_email r \<noteq> [] then [AccessApprovedEmail (ar_email r) (ar_username r)] else [])"
proof -
  have "\<not> (\<exists>u \<in> set (users d). u_username u = ar_username r)"
    using assms(4) by (simp add: getUserByUsername_def find_None_iff)
  then show ?thesis
    using assms(1-3)
    by (simp add: post_access_requests_approve_def requireAdmin_def createUser_def Let_def
        updateAccessRequestStatus_def)
qed

lemma getAccessRequest_after_status:
  assumes "getAccessRequest d i = Some r"
  shows "getAccessRequest
     (d'\<lparr>accessRequests :=
          map (\<lambda>x. if ar_id x = i then x\<lparr>ar_status := s\<rparr> else x) (accessRequests d)\<rparr>) i =
     Some (r\<lparr>ar_status := s\<rparr>)"
proof -
  have "find (\<lambda>x. ar_id x = i)
      (map (\<lambda>x. if ar_id x = i then x\<lparr>ar_status := s\<rparr> else x) (accessRequests d)) =
    map_option (\<lambda>x. if ar_id x = i then x\<lparr>ar_status := s\<rparr> else x)
      (find (\<lambda>x. ar_id x = i) (accessRequests d))"
    by (rule find_map_same) simp
  with assms getAccessRequest_id [OF assms] show ?thesis
    by (simp add: getAccessRequest_def)
qed

lemma pending_username_free:
  assumes "requests_consistent d" "getAccessRequest d i = Some r" "ar_status r = ''pending''"
  shows "getUserByUsername d (ar_username r) = None"
proof -
  have "r \<in> set (accessRequests d)"
    using assms(2) by (auto simp: getAccessRequest_def dest: find_Some_in)
  with assms(1,3) show ?thesis
    by (simp add: requests_consistent_def)
qed

lemma requests_consistent_created:
  "requests_consistent d \<Longrightarrow>
   requests_consistent (snd (post_access_requests k indexable rnd now d body))"
proof -
  assume inv: "requests_consistent d"
  show ?thesis
  proof (cases "textParameter (b_username body) \<and> getUserByUsername d (b_username body) = None \<and>
      getAccessRequestByUsername d (b_username body) = None \<and>
      textParameter (b_email body) \<and> textParameter (b_name body) \<and> indexable (b_username body)")
    case False
    then have "snd (post_access_requests k indexable rnd now d body) = d"
      by (auto simp: post_access_requests_def selectByText_def hashPassword_eq
          createAccessRequest_def split: option.splits)
    with inv show ?thesis by simp
  next
    case True
    then have u: "getUserByUsername d (b_username body) = None"
      and r: "getAccessRequestByUsername d (b_username body) = None"
      by simp_all
    have fresh: "b_username body \<notin> ar_username ` set (accessRequests d)"
      using r by (auto simp: getAccessRequestByUsername_def find_None_iff)
    show ?thesis
      using inv u fresh True
      by (auto simp: request_created requests_consistent_def getUserByUsername_def)
  qed
qed

lemma requests_consistent_approved:
  assumes inv: "requests_consistent d"
  shows "requests_consistent (fst (snd (post_access_requests_approve auth d i)))"
proof (cases "\<exists>a r. auth = Some a \<and> u_isAdmin a \<and> getAccessRequest d i = Some r \<and>
    ar_status r = ''pending''")
  case False
  then have "fst (snd (post_access_requests_approve auth d i)) = d"
    by (auto simp: post_access_requests_approve_def requireAdmin_def
        split: option.splits sum.splits)
  with inv show ?thesis by simp
next
  case True
  then obtain a r where a: "auth = Some a" "u_isAdmin a"
    and r: "getAccessRequest d i = Some r" and p: "ar_status r = ''pending''"
    by blast
  have free: "getUserByUsername d (ar_username r) = None"
    by (rule pending_username_free [OF inv r p])
  have rin: "r \<in> set (accessRequests d)"
    using r by (auto simp: getAccessRequest_def dest: find_Some_in)
  have rid: "ar_id r = i"
    by (rule getAccessRequest_id [OF r])
  have names: "map ar_username
      (map (\<lambda>x. if ar_id x = i then x\<lparr>ar_status := ''approved''\<rparr> else x) (accessRequests d)) =
      map ar_username (accessRequests d)"
    by (induction "accessRequests d") auto
  have other: "ar_username x \<noteq> ar_username r"
    if "x \<in> set (accessRequests d)" "ar_id x \<noteq> i" for x
  proof -
    have "inj_on ar_username (set (accessRequests d))"
      using inv by (simp add: requests_consistent_def distinct_map)
    moreover have "x \<noteq> r" using that(2) rid by auto
    ultimately show ?thesis
      using that(1) rin by (auto dest: inj_onD)
  qed
  let ?u = "\<lparr>u_id = users_seq d, u_username = ar_username r, u_password = ar_password r,
            u_email = ar_email r, u_name = ar_name r, u_avatar = None, u_isAdmin = False,
            u_roleId = None, u_isApproved = True\<rparr>"
  let ?rs = "map (\<lambda>x. if ar_id x = i then x\<lparr>ar_status := ''approved''\<rparr> else x) (accessRequests d)"
  let ?d' = "d\<lparr>users := users d @ [?u], users_seq := users_seq d + 1, accessRequests := ?rs\<rparr>"
  have d': "fst (snd (post_access_requests_approve auth d i)) = ?d'"
    by (simp add: a approve_pending [OF a(2) r p free])
  have "distinct (map ar_username ?rs)"
    using inv by (simp only: names requests_consistent_def)
  moreover have "getUserByUsername ?d' (ar_username y) = None"
    if y: "y \<in> set ?rs" "ar_status y = ''pending''" for y
  proof -
    from y obtain x where x: "x \<in> set (accessRequests d)" "ar_id x \<noteq> i" "y = x"
      by (auto split: if_splits)
    then have "getUserByUsername d (ar_username x) = None"
      using inv y(2) by (simp add: requests_consistent_def)
    moreover have "ar_username x \<noteq> ar_username r"
      by (rule other [OF x(1,2)])
    ultimately show ?thesis
      by (auto simp: x(3) getUserByUsername_def find_None_iff)
  qed
  ultimately show ?thesis
    unfolding d' by (simp add: requests_consistent_def)
qed

lemma requests_consistent_rejected:
  assumes inv: "requests_consistent d"
  shows "requests_consistent (fst (snd (post_access_requests_reject auth d i)))"
proof -
  have names: "map ar_username
      (map (\<lambda>x. if ar_id x = i then x\<lparr>ar_status := ''rejected''\<rparr> else x) (accessRequests d)) =
      map ar_username (accessRequests d)"
    by (induction "accessRequests d") auto
  show ?thesis
    using inv
    by (auto simp: post_access_requests_reject_def requireAdmin_def requests_consistent_def
        updateAccessRequestStatus_def getUserByUsername_def names Let_def
        simp del: map_map split: option.splits)
qed

lemma requests_consistent_initial: "accessRequests d = [] \<Longrightarrow> requests_consistent d"
  by (simp add: requests_consistent_def)

text \<open>
  C5. For an administrator and an existing request, in a database where the requests and
  the users are consistent (as every route that writes them keeps them): when the status
  of the request is not \<open>pending\<close>, the approval answers 400, changes no table and sends
  no e-mail. When the status is \<open>pending\<close>, the approval answers 200, appends a user made
  of the request's username, password, e-mail and name, with \<open>isAdmin\<close> false and
  \<open>isApproved\<close> true, changes no other user, and sets the status of the request to
  \<open>approved\<close>; approving the same request again then answers 400 and changes nothing.
\<close>

theorem approve_once:
  assumes "u_isAdmin a" and "getAccessRequest d i = Some r" and "requests_consistent d"
  shows "(ar_status r \<noteq> ''pending'' \<longrightarrow>
      post_access_requests_approve (Some a) d i =
        (Send 400 ''Request already processed'', d, [])) \<and>
   (ar_status r = ''pending'' \<longrightarrow>
      (\<exists>d' mails. post_access_requests_approve (Some a) d i = (Json 200 (), d', mails) \<and>
         users d' = users d @
           [\<lparr>u_id = users_seq d, u_username = ar_username r, u_password = ar_password r,
             u_email = ar_email r, u_name = ar_name r, u_avatar = None, u_isAdmin = False,
             u_roleId = None, u_isApproved = True\<rparr>] \<and>
         getAccessRequest d' i = Some (r\<lparr>ar_status := ''approved''\<rparr>) \<and>
         requests_consistent d' \<and>
         post_access_requests_approve (Some a) d' i =
           (Send 400 ''Request already processed'', d', [])))"
proof (intro conjI impI)
  assume "ar_status r \<noteq> ''pending''"
  with assms(1,2) show "post_access_requests_approve (Some a) d i =
        (Send 400 ''Request already processed'', d, [])"
    by (rule approve_processed)
next
  assume p: "ar_status r = ''pending''"
  have free: "getUserByUsername d (ar_username r) = None"
    by (rule pending_username_free [OF assms(3,2) p])
  let ?u = "\<lparr>u_id = users_seq d, u_username = ar_username r, u_password = ar_password r,
             u_email = ar_email r, u_name = ar_name r, u_avatar = None, u_isAdmin = False,
             u_roleId = None, u_isApproved = True\<rparr>"
  let ?d' = "d\<lparr>users := users d @ [?u], users_seq := users_seq d + 1,
        accessRequests :=
          map (\<lambda>x. if ar_id x = i then x\<lparr>ar_status := ''approved''\<rparr> else x) (accessRequests d)\<rparr>"
  have step: "post_access_requests_approve (Some a) d i =
      (Json 200 (), ?d',
       if ar_email r \<noteq> [] then [AccessApprovedEmail (ar_email r) (ar_username r)] else [])"
    by (rule approve_pending [OF assms(1,2) p free])
  have got: "getAccessRequest ?d' i = Some (r\<lparr>ar_status := ''approved''\<rparr>)"
    by (rule getAccessRequest_after_status [OF assms(2)])
  have again: "post_access_requests_approve (Some a) ?d' i =
      (Send 400 ''Request already processed'', ?d', [])"
    by (rule approve_processed [OF assms(1) got]) simp
  have kept: "requests_consistent ?d'"
    using requests_consistent_approved [OF assms(3), of "Some a" i] by (simp add: step)
  have "users ?d' = users d @ [?u]"
    by simp
  with step got again kept
  show "\<exists>d' mails. post_access_requests_approve (Some a) d i = (Json 200 (), d', mails) \<and>
         users d' = users d @ [?u] \<and>
         getAccessRequest d' i = Some (r\<lparr>ar_status := ''approved''\<rparr>) \<and>
         requests_consistent d' \<and>
         post_access_requests_approve (Some a) d' i =
           (Send 400 ''Request already processed'', d', [])"
    by blast
qed

theorem approve_once_witness:
  "u_isAdmin admin \<and> requests_consistent demo_db \<and>
   getAccessRequest demo_db 1 = Some carol_request \<and>
   ar_status carol_request = ''pending'' \<and>
   (\<exists>d'. post_access_requests_approve (Some admin) demo_db 1 =
           (Json 200 (), d', [AccessApprovedEmail ''carol@example.com'' ''carol'']) \<and>
      users d' = [admin, alice, bob,
        \<lparr>u_id = 4, u_username = ''carol'', u_password = ''00.00'', u_email = ''carol@example.com'',
         u_name = ''Carol'', u_avatar = None, u_isAdmin = False, u_roleId = None,
         u_isApproved = True\<rparr>] \<and>
      getAccessRequest d' 1 = Some (carol_request\<lparr>ar_status := ''approved''\<rparr>) \<and>
      post_access_requests_approve (Some admin) d' 1 =
        (Send 400 ''Request already processed'', d', [])) \<and>
   getAccessRequest demo_db 2 = Some dave_request \<and> ar_status dave_request \<noteq> ''pending'' \<and>
   post_access_requests_approve (Some admin) demo_db 2 =
     (Send 400 ''Request already processed'', demo_db, [])"
proof -
  have adm: "u_isAdmin admin"
    by (simp add: admin_def)
  have inv: "requests_consistent demo_db"
    by (simp add: requests_consistent_def getUserByUsername_def demo_defs)
  have carol: "getAccessRequest demo_db 1 = Some carol_request"
    and dave: "getAccessRequest demo_db 2 = Some dave_request"
    by (simp_all add: getAccessRequest_def demo_defs)
  have facts: "ar_status carol_request = ''pending''" "ar_username carol_request = ''carol''"
    "ar_status dave_request \<noteq> ''pending''" "getUserByUsername demo_db ''carol'' = None"
    by (simp_all add: getUserByUsername_def demo_defs)
  have mails: "post_access_requests_approve (Some admin) demo_db 1 = (r, d', ms) \<Longrightarrow>
      ms = [AccessApprovedEmail ''carol@example.com'' ''carol'']" for r d' ms
    using approve_pending [OF adm carol] facts by (simp add: carol_request_def)
  have "users demo_db = [admin, alice, bob]" "users_seq demo_db = 4"
    by (simp_all add: demo_db_def)
  then show ?thesis
    using approve_once [OF adm carol inv] approve_once [OF adm dave inv] adm inv carol dave
      facts mails
    by (auto simp: carol_request_def)
qed

subsection \<open>Listing the users\<close>

lemma omit_userObject:
  "omit ''password'' (userObject (u, r)) =
     [(''id'', JNum (u_id u)), (''username'', JStr (u_username u)),
      (''email'', JStr (u_email u)), (''name'', JStr (u_name u)),
      (''avatar'', nullable JStr (u_avatar u)), (''isAdmin'', JBool (u_isAdmin u)),
      (''roleId'', nullable JNum (u_roleId u)), (''isApproved'', JBool (u_isApproved u)),
      (''role'', nullable (JObj \<circ> roleObject) r)]"
  by (simp add: omit_def userObject_def)

lemma map_of_omit: "k \<noteq> key \<Longrightarrow> map_of (omit key obj) k = map_of obj k"
  by (induction obj) (auto simp: omit_def)

lemma key_not_in_omit: "key \<notin> fst ` set (omit key obj)"
  by (auto simp: omit_def)

lemma length_getAllUsers: "length (getAllUsers d) = length (users d)"
  by (simp add: getAllUsers_def)

lemma set_getAllUsers: "set (getAllUsers d) = withRole d ` set (users d)"
  by (simp add: getAllUsers_def)

text \<open>
  C10. For an authenticated request \<open>GET /api/users\<close> answers 200 with one object for
  each user row. The object has the properties id, username, email, name, avatar,
  isAdmin, roleId, isApproved and the joined role, with the values of the row; it has no
  property \<open>password\<close>, and every other property is the one of the row returned by
  \<open>getAllUsers\<close>. The database is unchanged.
\<close>

theorem get_users_omits_password:
  "\<exists>safeUsers. get_users (Some me) d = (Json 200 safeUsers, d) \<and>
     length safeUsers = length (users d) \<and>
     set (getAllUsers d) = withRole d ` set (users d) \<and>
     safeUsers =
       map (\<lambda>(u, r).
             [(''id'', JNum (u_id u)), (''username'', JStr (u_username u)),
              (''email'', JStr (u_email u)), (''name'', JStr (u_name u)),
              (''avatar'', nullable JStr (u_avatar u)), (''isAdmin'', JBool (u_isAdmin u)),
              (''roleId'', nullable JNum (u_roleId u)), (''isApproved'', JBool (u_isApproved u)),
              (''role'', nullable (JObj \<circ> roleObject) r)])
         (getAllUsers d) \<and>
     (\<forall>n. n < length safeUsers \<longrightarrow>
        ''password'' \<notin> fst ` set (safeUsers ! n) \<and>
        (\<forall>key. key \<noteq> ''password'' \<longrightarrow>
           map_of (safeUsers ! n) key = map_of (userObject (getAllUsers d ! n)) key))"
proof -
  let ?safe = "map (omit ''password'') (map userObject (getAllUsers d))"
  have resp: "get_users (Some me) d = (Json 200 ?safe, d)"
    by (simp add: get_users_def requireAuth_def Let_def)
  have len: "length ?safe = length (users d)"
    by (simp add: length_getAllUsers)
  have explicit: "?safe = map (\<lambda>(u, r).
             [(''id'', JNum (u_id u)), (''username'', JStr (u_username u)),
              (''email'', JStr (u_email u)), (''name'', JStr (u_name u)),
              (''avatar'', nullable JStr (u_avatar u)), (''isAdmin'', JBool (u_isAdmin u)),
              (''roleId'', nullable JNum (u_roleId u)), (''isApproved'', JBool (u_isApproved u)),
              (''role'', nullable (JObj \<circ> roleObject) r)])
         (getAllUsers d)"
    by (auto simp: omit_userObject)
  have each: "\<forall>n. n < length ?safe \<longrightarrow>
        ''password'' \<notin> fst ` set (?safe ! n) \<and>
        (\<forall>key. key \<noteq> ''password'' \<longrightarrow>
           map_of (?safe ! n) key = map_of (userObject (getAllUsers d ! n)) key)"
    by (simp add: map_of_omit key_not_in_omit)
  from resp len set_getAllUsers explicit each show ?thesis
    by blast
qed

theorem get_users_omits_password_witness:
  "get_users (Some alice) demo_db =
     (Json 200
       [[(''id'', JNum 3), (''username'', JStr ''bob''), (''email'', JStr ''bob@example.com''),
         (''name'', JStr ''Bob''), (''avatar'', JNull), (''isAdmin'', JBool False),
         (''roleId'', JNum 7), (''isApproved'', JBool False),
         (''role'', JObj [(''id'', JNum 7), (''name'', JStr ''Staff''),
                          (''color'', JStr ''#00ff00'')])],
        [(''id'', JNum 2), (''username'', JStr ''alice''),
         (''email'', JStr ''alice@example.com''), (''name'', JStr ''Alice''),
         (''avatar'', JNull), (''isAdmin'', JBool False), (''roleId'', JNum 7),
         (''isApproved'', JBool True),
         (''role'', JObj [(''id'', JNum 7), (''name'', JStr ''Staff''),
                          (''color'', JStr ''#00ff00'')])],
        [(''id'', JNum 1), (''username'', JStr ''grovefanreal''),
         (''email'', JStr ''admin@grovefan.com''), (''name'', JStr ''Admin''),
         (''avatar'', JNull), (''isAdmin'', JBool True), (''roleId'', JNull),
         (''isApproved'', JBool True), (''role'', JNull)]],
      demo_db)"
proof -
  have listed: "getAllUsers demo_db = [(bob, Some staff), (alice, Some staff), (admin, None)]"
    by (simp add: getAllUsers_def withRole_def getRole_def demo_defs)
  from get_users_omits_password [of alice demo_db]
  obtain safeUsers where
    response: "get_users (Some alice) demo_db = (Json 200 safeUsers, demo_db)" and
    explicit: "safeUsers =
       map (\<lambda>(u, r).
             [(''id'', JNum (u_id u)), (''username'', JStr (u_username u)),
              (''email'', JStr (u_email u)), (''name'', JStr (u_name u)),
              (''avatar'', nullable JStr (u_avatar u)), (''isAdmin'', JBool (u_isAdmin u)),
              (''roleId'', nullable JNum (u_roleId u)), (''isApproved'', JBool (u_isApproved u)),
              (''role'', nullable (JObj \<circ> roleObject) r)])
         (getAllUsers demo_db)"
    by blast
  have "safeUsers = 
       [[(''id'', JNum 3), (''username'', JStr ''bob''), (''email'', JStr ''bob@example.com''),
         (''name'', JStr ''Bob''), (''avatar'', JNull), (''isAdmin'', JBool False),
         (''roleId'', JNum 7), (''isApproved'', JBool False),
         (''role'', JObj [(''id'', JNum 7), (''name'', JStr ''Staff''),
                          (''color'', JStr ''#00ff00'')])],
        [(''id'', JNum 2), (''username'', JStr ''alice''),
         (''email'', JStr ''alice@example.com''), (''name'', JStr ''Alice''),
         (''avatar'', JNull), (''isAdmin'', JBool False), (''roleId'', JNum 7),
         (''isApproved'', JBool True),
         (''role'', JObj [(''id'', JNum 7), (''name'', JStr ''Staff''),
                          (''color'', JStr ''#00ff00'')])],
        [(''id'', JNum 1), (''username'', JStr ''grovefanreal''),
         (''email'', JStr ''admin@grovefan.com''), (''name'', JStr ''Admin''),
         (''avatar'', JNull), (''isAdmin'', JBool True), (''roleId'', JNull),
         (''isApproved'', JBool True), (''role'', JNull)]]"
    unfolding explicit listed
    by (simp add: nullable_def roleObject_def admin_def alice_def bob_def staff_def)
  with response show ?thesis
    by simp
qed

subsection \<open>Deleting a role\<close>

lemma detach_counts:
  "length (filter (\<lambda>u. u_roleId u = None)
        (map (\<lambda>u. if u_roleId u = Some i then u\<lparr>u_roleId := None\<rparr> else u) us)) =
      length (filter (\<lambda>u. u_roleId u = None) us) +
      length (filter (\<lambda>u. u_roleId u = Some i) us)"
  by (induction us) auto

lemma detach_no_reference:
  "filter (\<lambda>u. u_roleId u = Some i)
        (map (\<lambda>u. if u_roleId u = Some i then u\<lparr>u_roleId := None\<rparr> else u) us) = []"
  by (induction us) auto

text \<open>
  C7. \<open>deleteRole\<close> first detaches the role: after the first statement no user row
  references the role and the roles table is as before. Then it removes the role row:
  afterwards no user row references the role, the role can no longer be found, the other
  roles are kept, each user row that held the role differs from before in its \<open>roleId\<close>
  only, which is null, and every other user row is unchanged. The number of user rows
  with a null role has grown by the number of rows that held the role.
\<close>

theorem deleteRole_detaches_then_removes:
  "filter (\<lambda>u. u_roleId u = Some i) (users (detachRole d i)) = [] \<and>
   roles (detachRole d i) = roles d \<and>
   deleteRole d i = removeRole (detachRole d i) i \<and>
   filter (\<lambda>u. u_roleId u = Some i) (users (deleteRole d i)) = [] \<and>
   getRole (deleteRole d i) i = None \<and>
   roles (deleteRole d i) = filter (\<lambda>r. r_id r \<noteq> i) (roles d) \<and>
   users (deleteRole d i) =
     map (\<lambda>u. if u_roleId u = Some i then u\<lparr>u_roleId := None\<rparr> else u) (users d) \<and>
   length (filter (\<lambda>u. u_roleId u = None) (users (deleteRole d i))) =
     length (filter (\<lambda>u. u_roleId u = None) (users d)) +
     length (filter (\<lambda>u. u_roleId u = Some i) (users d))"
  using detach_counts [of i "users d"] detach_no_reference [of i "users d"]
  by (simp add: deleteRole_def detachRole_def removeRole_def getRole_def find_filter_out Let_def)

subsection \<open>Soft-deleting a message\<close>















subsection \<open>Updating a task\<close>

lemma getTask_id: "getTask d i = Some t \<Longrightarrow> t_id t = i"
  by (auto simp: getTask_def dest: find_Some_holds)

lemma t_id_setTask: "t_id (setTask p t) = t_id t"
  by (simp add: setTask_def)

lemma dueNotADate_body:
  "dueNotADate (asPartialTask body) \<longleftrightarrow> (\<exists>s. tb_dueDate body = Some (Some s))"
  by (auto simp: dueNotADate_def asPartialTask_def split: option.splits due_value.splits)

lemma patch_forbidden:
  assumes "getTask d i = Some t" "t_assignedTo t \<noteq> Some (u_id me)" "\<not> u_isAdmin me"
  shows "patch_tasks (Some me) d i body = (Send 403 ''Forbidden'', d)"
  using assms by (simp add: patch_tasks_def requireAuth_def)

lemma patch_rejected:
  assumes "getTask d i = Some t" "t_assignedTo t = Some (u_id me) \<or> u_isAdmin me"
    "noTaskValues (asPartialTask body) \<or> (\<exists>s. tb_dueDate body = Some (Some s)) \<or>
     \<not> taskTextParameters (asPartialTask body) \<or> \<not> taskReferences d (asPartialTask body)"
  shows "\<exists>e. patch_tasks (Some me) d i body = (Error500 e, d)"
  using assms
  by (auto simp: patch_tasks_def requireAuth_def updateTask_def dueNotADate_body)

lemma patch_allowed:
  assumes "getTask d i = Some t" "t_assignedTo t = Some (u_id me) \<or> u_isAdmin me"
    "\<not> noTaskValues (asPartialTask body)" "\<not> (\<exists>s. tb_dueDate body = Some (Some s))"
    "taskTextParameters (asPartialTask body)" "taskReferences d (asPartialTask body)"
  shows "patch_tasks (Some me) d i body =
     (Json 200 (Some (setTask (asPartialTask body) t)),
      d\<lparr>tasks := map (\<lambda>x. if t_id x = i then setTask (asPartialTask body) x else x) (tasks d)\<rparr>)"
proof -
  let ?p = "asPartialTask body"
  have "find (\<lambda>x. t_id x = i) (map (\<lambda>x. if t_id x = i then setTask ?p x else x) (tasks d)) =
      map_option (\<lambda>x. if t_id x = i then setTask ?p x else x)
        (find (\<lambda>x. t_id x = i) (tasks d))"
    by (rule find_map_same) (simp add: t_id_setTask)
  then have "find (\<lambda>x. t_id x = i)
      (map (\<lambda>x. if t_id x = i then setTask ?p x else x) (tasks d)) = Some (setTask ?p t)"
    using assms(1) getTask_id [OF assms(1)] by (simp add: getTask_def)
  then show ?thesis
    using assms
    by (auto simp: patch_tasks_def requireAuth_def updateTask_def dueNotADate_body Let_def)
qed

lemma setTask_status_only:
  "setTask (asPartialTask
       \<lparr>tb_title = None, tb_description = None, tb_priority = None, tb_status = Some s,
        tb_assignedTo = None, tb_createdBy = None, tb_dueDate = None\<rparr>) x
     = x\<lparr>t_status := s\<rparr>"
  by (simp add: setTask_def asPartialTask_def)

text \<open>
  C3, as the code has it. For an existing task, a user who is neither an administrator nor
  the assignee gets 403 and the database is unchanged. The assignee and an administrator
  alike can write every field of the body that the update accepts, not the status alone.
  The update accepts a body that gives at least one field, no \<open>dueDate\<close> other than
  \<open>null\<close>, no text that holds U+0000, and for \<open>assignedTo\<close> and \<open>createdBy\<close> the ids of
  users: then the answer is 200 with the updated task, each field present in the body is
  written, each field absent from it is kept (as are the id and the creation time), and
  no task with another id is touched; a body that holds only a status changes only the
  status. Any other body is answered with status 500 and nothing is written.
\<close>

theorem patch_tasks_guard_and_effect:
  assumes "getTask d i = Some t"
  shows "(t_assignedTo t \<noteq> Some (u_id me) \<and> \<not> u_isAdmin me \<longrightarrow>
      patch_tasks (Some me) d i body = (Send 403 ''Forbidden'', d)) \<and>
   ((t_assignedTo t = Some (u_id me) \<or> u_isAdmin me) \<and>
    (noTaskValues (asPartialTask body) \<or> (\<exists>s. tb_dueDate body = Some (Some s)) \<or>
     \<not> taskTextParameters (asPartialTask body) \<or> \<not> taskReferences d (asPartialTask body)) \<longrightarrow>
      (\<exists>e. patch_tasks (Some me) d i body = (Error500 e, d))) \<and>
   ((t_assignedTo t = Some (u_id me) \<or> u_isAdmin me) \<and>
    \<not> noTaskValues (asPartialTask body) \<and> \<not> (\<exists>s. tb_dueDate body = Some (Some s)) \<and>
    taskTextParameters (asPartialTask body) \<and> taskReferences d (asPartialTask body) \<longrightarrow>
      (\<exists>t' d'. patch_tasks (Some me) d i body = (Json 200 (Some t'), d') \<and>
         d' = d\<lparr>tasks := tasks d'\<rparr> \<and>
         tasks d' =
           map (\<lambda>x. if t_id x = i then setTask (asPartialTask body) x else x) (tasks d) \<and>
         getTask d' i = Some t' \<and>
         t_id t' = t_id t \<and> t_createdAt t' = t_createdAt t \<and>
         t_title t' = (case tb_title body of None \<Rightarrow> t_title t | Some v \<Rightarrow> v) \<and>
         t_description t' =
           (case tb_description body of None \<Rightarrow> t_description t | Some v \<Rightarrow> v) \<and>
         t_priority t' = (case tb_priority body of None \<Rightarrow> t_priority t | Some v \<Rightarrow> v) \<and>
         t_status t' = (case tb_status body of None \<Rightarrow> t_status t | Some v \<Rightarrow> v) \<and>
         t_assignedTo t' =
           (case tb_assignedTo body of None \<Rightarrow> t_assignedTo t | Some v \<Rightarrow> v) \<and>
         t_createdBy t' = (case tb_createdBy body of None \<Rightarrow> t_createdBy t | Some v \<Rightarrow> v) \<and>
         t_dueDate t' = (case tb_dueDate body of None \<Rightarrow> t_dueDate t | Some v \<Rightarrow> None))) \<and>
   ((t_assignedTo t = Some (u_id me) \<or> u_isAdmin me) \<and> textParameter s \<longrightarrow>
      patch_tasks (Some me) d i
        \<lparr>tb_title = None, tb_description = None, tb_priority = None, tb_status = Some s,
         tb_assignedTo = None, tb_createdBy = None, tb_dueDate = None\<rparr> =
        (Json 200 (Some (t\<lparr>t_status := s\<rparr>)),
         d\<lparr>tasks := map (\<lambda>x. if t_id x = i then x\<lparr>t_status := s\<rparr> else x) (tasks d)\<rparr>))"
proof (intro conjI impI)
  assume "t_assignedTo t \<noteq> Some (u_id me) \<and> \<not> u_isAdmin me"
  then show "patch_tasks (Some me) d i body = (Send 403 ''Forbidden'', d)"
    using patch_forbidden [OF assms] by blast
next
  assume "(t_assignedTo t = Some (u_id me) \<or> u_isAdmin me) \<and>
    (noTaskValues (asPartialTask body) \<or> (\<exists>s. tb_dueDate body = Some (Some s)) \<or>
     \<not> taskTextParameters (asPartialTask body) \<or> \<not> taskReferences d (asPartialTask body))"
  then show "\<exists>e. patch_tasks (Some me) d i body = (Error500 e, d)"
    using patch_rejected [OF assms, of me body] by blast
next
  assume ok: "(t_assignedTo t = Some (u_id me) \<or> u_isAdmin me) \<and>
    \<not> noTaskValues (asPartialTask body) \<and> \<not> (\<exists>s. tb_dueDate body = Some (Some s)) \<and>
    taskTextParameters (asPartialTask body) \<and> taskReferences d (asPartialTask body)"
  let ?p = "asPartialTask body"
  let ?t' = "setTask ?p t"
  let ?d' = "d\<lparr>tasks := map (\<lambda>x. if t_id x = i then setTask ?p x else x) (tasks d)\<rparr>"
  have step: "patch_tasks (Some me) d i body = (Json 200 (Some ?t'), ?d')"
    using patch_allowed [OF assms, of me body] ok by blast
  have "find (\<lambda>x. t_id x = i) (map (\<lambda>x. if t_id x = i then setTask ?p x else x) (tasks d)) =
      map_option (\<lambda>x. if t_id x = i then setTask ?p x else x)
        (find (\<lambda>x. t_id x = i) (tasks d))"
    by (rule find_map_same) (simp add: t_id_setTask)
  then have got: "getTask ?d' i = Some ?t'"
    using assms getTask_id [OF assms] by (simp add: getTask_def)
  have due: "t_dueDate ?t' = (case tb_dueDate body of None \<Rightarrow> t_dueDate t | Some v \<Rightarrow> None)"
    using ok by (auto simp: setTask_def asPartialTask_def split: option.splits)
  have fields: "t_id ?t' = t_id t" "t_createdAt ?t' = t_createdAt t"
    "t_title ?t' = (case tb_title body of None \<Rightarrow> t_title t | Some v \<Rightarrow> v)"
    "t_description ?t' = (case tb_description body of None \<Rightarrow> t_description t | Some v \<Rightarrow> v)"
    "t_priority ?t' = (case tb_priority body of None \<Rightarrow> t_priority t | Some v \<Rightarrow> v)"
    "t_status ?t' = (case tb_status body of None \<Rightarrow> t_status t | Some v \<Rightarrow> v)"
    "t_assignedTo ?t' = (case tb_assignedTo body of None \<Rightarrow> t_assignedTo t | Some v \<Rightarrow> v)"
    "t_createdBy ?t' = (case tb_createdBy body of None \<Rightarrow> t_createdBy t | Some v \<Rightarrow> v)"
    by (simp_all add: setTask_def asPartialTask_def)
  have frame: "?d' = d\<lparr>tasks := tasks ?d'\<rparr>"
    "tasks ?d' = map (\<lambda>x. if t_id x = i then setTask ?p x else x) (tasks d)"
    by simp_all
  from step frame got fields due
  show "\<exists>t' d'. patch_tasks (Some me) d i body = (Json 200 (Some t'), d') \<and>
         d' = d\<lparr>tasks := tasks d'\<rparr> \<and>
         tasks d' =
           map (\<lambda>x. if t_id x = i then setTask (asPartialTask body) x else x) (tasks d) \<and>
         getTask d' i = Some t' \<and>
         t_id t' = t_id t \<and> t_createdAt t' = t_createdAt t \<and>
         t_title t' = (case tb_title body of None \<Rightarrow> t_title t | Some v \<Rightarrow> v) \<and>
         t_description t' =
           (case tb_description body of None \<Rightarrow> t_description t | Some v \<Rightarrow> v) \<and>
         t_priority t' = (case tb_priority body of None \<Rightarrow> t_priority t | Some v \<Rightarrow> v) \<and>
         t_status t' = (case tb_status body of None \<Rightarrow> t_status t | Some v \<Rightarrow> v) \<and>
         t_assignedTo t' =
           (case tb_assignedTo body of None \<Rightarrow> t_assignedTo t | Some v \<Rightarrow> v) \<and>
         t_createdBy t' = (case tb_createdBy body of None \<Rightarrow> t_createdBy t | Some v \<Rightarrow> v) \<and>
         t_dueDate t' = (case tb_dueDate body of None \<Rightarrow> t_dueDate t | Some v \<Rightarrow> None)"
    by blast
next
  let ?body = "\<lparr>tb_title = None, tb_description = None, tb_priority = None, tb_status = Some s,
         tb_assignedTo = None, tb_createdBy = None, tb_dueDate = None\<rparr>"
  assume ok: "(t_assignedTo t = Some (u_id me) \<or> u_isAdmin me) \<and> textParameter s"
  have "\<not> noTaskValues (asPartialTask ?body)" "\<not> (\<exists>v. tb_dueDate ?body = Some (Some v))"
    "taskTextParameters (asPartialTask ?body)" "taskReferences d (asPartialTask ?body)"
    using ok
    by (simp_all add: noTaskValues_def taskTextParameters_def taskReferences_def
        asPartialTask_def)
  then have "patch_tasks (Some me) d i ?body =
     (Json 200 (Some (setTask (asPartialTask ?body) t)),
      d\<lparr>tasks := map (\<lambda>x. if t_id x = i then setTask (asPartialTask ?body) x else x)
                   (tasks d)\<rparr>)"
    using patch_allowed [OF assms, of me ?body] ok by blast
  then show "patch_tasks (Some me) d i ?body =
        (Json 200 (Some (t\<lparr>t_status := s\<rparr>)),
         d\<lparr>tasks := map (\<lambda>x. if t_id x = i then x\<lparr>t_status := s\<rparr> else x) (tasks d)\<rparr>)"
    by (simp only: setTask_status_only)
qed

theorem patch_tasks_guard_and_effect_witness:
  "getTask demo_db 1 = Some ship_report \<and>
   t_assignedTo ship_report \<noteq> Some (u_id bob) \<and> \<not> u_isAdmin bob \<and>
   patch_tasks (Some bob) demo_db 1
     \<lparr>tb_title = None, tb_description = None, tb_priority = None, tb_status = Some ''completed'',
      tb_assignedTo = None, tb_createdBy = None, tb_dueDate = None\<rparr>
     = (Send 403 ''Forbidden'', demo_db) \<and>
   t_assignedTo ship_report = Some (u_id alice) \<and>
   patch_tasks (Some alice) demo_db 1
     \<lparr>tb_title = None, tb_description = None, tb_priority = None, tb_status = Some ''completed'',
      tb_assignedTo = None, tb_createdBy = None, tb_dueDate = None\<rparr>
     = (Json 200 (Some (ship_report\<lparr>t_status := ''completed''\<rparr>)),
        demo_db\<lparr>tasks := [ship_report\<lparr>t_status := ''completed''\<rparr>]\<rparr>) \<and>
   (\<exists>e. patch_tasks (Some alice) demo_db 1
     \<lparr>tb_title = None, tb_description = None, tb_priority = None, tb_status = Some ''completed'',
      tb_assignedTo = None, tb_createdBy = None, tb_dueDate = Some (Some ''2024-02-01'')\<rparr>
     = (Error500 e, demo_db)) \<and>
   (\<exists>e. patch_tasks (Some alice) demo_db 1
     \<lparr>tb_title = None, tb_description = None, tb_priority = None, tb_status = None,
      tb_assignedTo = Some (Some 99), tb_createdBy = None, tb_dueDate = None\<rparr>
     = (Error500 e, demo_db))"
proof -
  let ?status = "\<lparr>tb_title = None, tb_description = None, tb_priority = None,
      tb_status = Some ''completed'', tb_assignedTo = None, tb_createdBy = None,
      tb_dueDate = None\<rparr>"
  let ?due = "\<lparr>tb_title = None, tb_description = None, tb_priority = None,
      tb_status = Some ''completed'', tb_assignedTo = None, tb_createdBy = None,
      tb_dueDate = Some (Some ''2024-02-01'')\<rparr>"
  let ?ref = "\<lparr>tb_title = None, tb_description = None, tb_priority = None,
      tb_status = None, tb_assignedTo = Some (Some 99), tb_createdBy = None,
      tb_dueDate = None\<rparr>"
  have task: "getTask demo_db 1 = Some ship_report"
    by (simp add: getTask_def demo_defs)
  have who: "t_assignedTo ship_report \<noteq> Some (u_id bob)" "\<not> u_isAdmin bob"
    "t_assignedTo ship_report = Some (u_id alice)"
    by (simp_all add: demo_defs)
  have body: "\<not> noTaskValues (asPartialTask ?status)" "taskTextParameters (asPartialTask ?status)"
    "taskReferences demo_db (asPartialTask ?status)"
    "\<not> taskReferences demo_db (asPartialTask ?ref)" "textParameter ''completed''"
    by (simp_all add: noTaskValues_def taskTextParameters_def taskReferences_def
        asPartialTask_def textParameter_def getUser_def demo_defs)
  have rows: "tasks demo_db = [ship_report]" "t_id ship_report = 1"
    by (simp_all add: demo_defs)
  have 1: "patch_tasks (Some bob) demo_db 1 ?status = (Send 403 ''Forbidden'', demo_db)"
    using patch_tasks_guard_and_effect [OF task, of bob ?status "''completed''"] who by simp
  have 2: "patch_tasks (Some alice) demo_db 1 ?status =
      (Json 200 (Some (ship_report\<lparr>t_status := ''completed''\<rparr>)),
        demo_db\<lparr>tasks := [ship_report\<lparr>t_status := ''completed''\<rparr>]\<rparr>)"
    using patch_tasks_guard_and_effect [OF task, of alice ?status "''completed''"] who body
    by (simp add: rows)
  have 3: "\<exists>e. patch_tasks (Some alice) demo_db 1 ?due = (Error500 e, demo_db)"
    using patch_tasks_guard_and_effect [OF task, of alice ?due "''completed''"] who by simp
  have 4: "\<exists>e. patch_tasks (Some alice) demo_db 1 ?ref = (Error500 e, demo_db)"
    using patch_tasks_guard_and_effect [OF task, of alice ?ref "''completed''"] who body by simp
  from task who 1 2 3 4 show ?thesis
    by blast
qed

text \<open>
  C3 as stated lets the assignee change the status only. The route passes the whole body
  to \<open>updateTask\<close>: the assignee, who is no administrator, changes the title and the
  priority of her task and unassigns it.
\<close>

theorem assignee_changes_title_counterexample:
  "t_assignedTo ship_report = Some (u_id alice) \<and> \<not> u_isAdmin alice \<and>
   getTask demo_db 1 = Some ship_report \<and>
   getTask (snd (patch_tasks (Some alice) demo_db 1
        \<lparr>tb_title = Some ''Done'', tb_description = None, tb_priority = Some ''low'',
         tb_status = None, tb_assignedTo = Some None, tb_createdBy = None,
         tb_dueDate = None\<rparr>)) 1 =
     Some (ship_report\<lparr>t_title := ''Done'', t_priority := ''low'', t_assignedTo := None\<rparr>)"
  by (simp add: demo_defs getTask_def patch_tasks_def requireAuth_def updateTask_def
      noTaskValues_def setTask_def asPartialTask_def dueNotADate_def taskTextParameters_def
      taskReferences_def textParameter_def Let_def)

subsection \<open>Attendance\<close>

lemma find_key_permuted:
  assumes "mset ys = mset xs" "distinct (map k xs)"
  shows "find (\<lambda>a. k a = key) ys = find (\<lambda>a. k a = key) xs"
proof (cases "find (\<lambda>a. k a = key) xs")
  case None
  then have "\<not> (\<exists>a \<in> set xs. k a = key)"
    by (simp add: find_None_iff)
  moreover have "set ys = set xs"
    using assms(1) by (rule mset_eq_setD)
  ultimately have "find (\<lambda>a. k a = key) ys = None"
    by (simp add: find_None_iff)
  with None show ?thesis by simp
next
  case (Some x)
  have sets: "set ys = set xs"
    using assms(1) by (rule mset_eq_setD)
  have x: "x \<in> set xs" "k x = key"
    using Some by (auto dest: find_Some_in find_Some_holds)
  then have "\<exists>a \<in> set ys. k a = key"
    using sets by auto
  then obtain y where y: "find (\<lambda>a. k a = key) ys = Some y"
    by (cases "find (\<lambda>a. k a = key) ys") (auto simp: find_None_iff)
  then have "y \<in> set xs" "k y = key"
    using sets by (auto dest: find_Some_in find_Some_holds)
  moreover have "inj_on k (set xs)"
    using assms(2) by (simp add: distinct_map)
  ultimately have "y = x"
    using x by (auto dest: inj_onD)
  with y Some show ?thesis by simp
qed

lemma getTodayAttendance_key:
  "getTodayAttendance d userId date =
     find (\<lambda>a. (at_userId a, at_date a) = (userId, date)) (attendance d)"
  by (simp add: getTodayAttendance_def)

lemma onePerDay_permuted:
  assumes "mset (attendance d'') = mset (attendance d')"
  shows "onePerDay d'' = onePerDay d'"
proof -
  have "mset (map (\<lambda>a. (at_userId a, at_date a)) (attendance d'')) =
      mset (map (\<lambda>a. (at_userId a, at_date a)) (attendance d'))"
    by (simp only: mset_map assms)
  then show ?thesis
    unfolding onePerDay_def by (rule mset_eq_imp_distinct_iff)
qed

lemma getTodayAttendance_permuted:
  assumes "onePerDay d'" "mset (attendance d'') = mset (attendance d')"
  shows "getTodayAttendance d'' userId date = getTodayAttendance d' userId date"
  unfolding getTodayAttendance_key
  using assms by (intro find_key_permuted) (simp_all add: onePerDay_def)

lemma attendanceState_permuted:
  assumes "onePerDay d'" "mset (attendance d'') = mset (attendance d')"
  shows "attendanceState d'' userId date = attendanceState d' userId date"
  by (simp add: attendanceState_def getTodayAttendance_permuted [OF assms])

lemma clock_in_absent:
  assumes "getTodayAttendance d (u_id me) today = None"
  shows "post_attendance_clock_in (Some me) d today now =
     (Json 201 \<lparr>at_id = attendance_seq d, at_userId = u_id me, at_clockIn = now,
                 at_clockOut = None, at_date = today\<rparr>,
      d\<lparr>attendance := attendance d @
            [\<lparr>at_id = attendance_seq d, at_userId = u_id me, at_clockIn = now,
              at_clockOut = None, at_date = today\<rparr>],
        attendance_seq := attendance_seq d + 1\<rparr>)"
  using assms
  by (simp add: post_attendance_clock_in_def requireAuth_def createAttendance_def Let_def)

lemma clock_out_open:
  assumes "getTodayAttendance d (u_id me) today = Some r" "at_clockOut r = None"
  shows "\<exists>updated. post_attendance_clock_out (Some me) d today now =
     (Json 200 updated,
      d\<lparr>attendance := map (\<lambda>a. if at_id a = at_id r then a\<lparr>at_clockOut := Some now\<rparr> else a)
          (attendance d)\<rparr>)"
  using assms
  by (simp add: post_attendance_clock_out_def requireAuth_def updateAttendance_def Let_def
      noAttendanceValues_def setAttendance_def)

lemma getTodayAttendance_closed:
  assumes "getTodayAttendance d userId today = Some r"
  shows "getTodayAttendance
     (d\<lparr>attendance := map (\<lambda>a. if at_id a = at_id r then a\<lparr>at_clockOut := Some now\<rparr> else a)
          (attendance d)\<rparr>) userId today = Some (r\<lparr>at_clockOut := Some now\<rparr>)"
proof -
  have "find (\<lambda>a. at_userId a = userId \<and> at_date a = today)
      (map (\<lambda>a. if at_id a = at_id r then a\<lparr>at_clockOut := Some now\<rparr> else a) (attendance d)) =
     map_option (\<lambda>a. if at_id a = at_id r then a\<lparr>at_clockOut := Some now\<rparr> else a)
      (find (\<lambda>a. at_userId a = userId \<and> at_date a = today) (attendance d))"
    by (rule find_map_same) simp
  with assms show ?thesis
    by (simp add: getTodayAttendance_def)
qed

lemma onePerDay_clock_in:
  assumes "onePerDay d"
  shows "onePerDay (snd (post_attendance_clock_in auth d today now))"
proof (cases "\<exists>me. auth = Some me \<and> getTodayAttendance d (u_id me) today = None")
  case False
  then have "snd (post_attendance_clock_in auth d today now) = d"
    by (auto simp: post_attendance_clock_in_def requireAuth_def split: option.splits)
  with assms show ?thesis by simp
next
  case True
  then obtain me where me: "auth = Some me"
    and absent: "getTodayAttendance d (u_id me) today = None"
    by blast
  have "(u_id me, today) \<notin> (\<lambda>a. (at_userId a, at_date a)) ` set (attendance d)"
    using absent by (auto simp: getTodayAttendance_def find_None_iff)
  with assms show ?thesis
    by (simp add: me clock_in_absent [OF absent] onePerDay_def)
qed

lemma onePerDay_clock_out:
  assumes "onePerDay d"
  shows "onePerDay (snd (post_attendance_clock_out auth d today now))"
proof (cases "\<exists>me r. auth = Some me \<and> getTodayAttendance d (u_id me) today = Some r \<and>
    at_clockOut r = None")
  case False
  then have "snd (post_attendance_clock_out auth d today now) = d"
    by (auto simp: post_attendance_clock_out_def requireAuth_def split: option.splits)
  with assms show ?thesis by simp
next
  case True
  then obtain me r where me: "auth = Some me"
    and r: "getTodayAttendance d (u_id me) today = Some r" "at_clockOut r = None"
    by blast
  have keys: "map (\<lambda>a. (at_userId a, at_date a))
      (map (\<lambda>a. if at_id a = at_id r then a\<lparr>at_clockOut := Some now\<rparr> else a) (attendance d)) =
      map (\<lambda>a. (at_userId a, at_date a)) (attendance d)"
    by (induction "attendance d") auto
  obtain updated where "post_attendance_clock_out (Some me) d today now =
     (Json 200 updated,
      d\<lparr>attendance := map (\<lambda>a. if at_id a = at_id r then a\<lparr>at_clockOut := Some now\<rparr> else a)
          (attendance d)\<rparr>)"
    using clock_out_open [OF r] by blast
  with assms show ?thesis
    by (simp add: me onePerDay_def keys del: map_map)
qed

lemma onePerDay_initial: "attendance d = [] \<Longrightarrow> onePerDay d"
  by (simp add: onePerDay_def)

text \<open>
  C4. For a user and a date: a clock-in when a record exists answers 400 and changes
  nothing; a clock-out when no record exists answers 400 and changes nothing. In a
  database with at most one record for each user and date (which both routes keep so,
  \<open>onePerDay_clock_in\<close> and \<open>onePerDay_clock_out\<close>): a clock-out when the record has a
  clock-out time answers 400 and changes nothing; from \<open>Absent\<close> a clock-in answers 201,
  appends the record and gives \<open>ClockedIn\<close>; from \<open>ClockedIn\<close> a clock-out answers 200,
  stores the clock-out time and gives \<open>ClockedOut\<close>. The state after a transition is
  stated for every order in which the table may hold its rows.
\<close>

theorem attendance_state_machine:
  "(getTodayAttendance d (u_id me) today \<noteq> None \<longrightarrow>
      post_attendance_clock_in (Some me) d today now = (Send 400 ''Already clocked in today'', d)) \<and>
   (getTodayAttendance d (u_id me) today = None \<longrightarrow>
      post_attendance_clock_out (Some me) d today now = (Send 400 ''Not clocked in today'', d)) \<and>
   (\<forall>r. onePerDay d \<and> getTodayAttendance d (u_id me) today = Some r \<and> at_clockOut r \<noteq> None \<longrightarrow>
      post_attendance_clock_out (Some me) d today now =
        (Send 400 ''Already clocked out today'', d)) \<and>
   (onePerDay d \<and> getTodayAttendance d (u_id me) today = None \<longrightarrow>
      (\<exists>r d'. post_attendance_clock_in (Some me) d today now = (Json 201 r, d') \<and>
         attendance d' = attendance d @ [r] \<and> at_userId r = u_id me \<and> at_date r = today \<and>
         at_clockIn r = now \<and> at_clockOut r = None \<and>
         attendanceState d (u_id me) today = Absent \<and> onePerDay d' \<and>
         (\<forall>d''. mset (attendance d'') = mset (attendance d') \<longrightarrow>
            getTodayAttendance d'' (u_id me) today = Some r \<and>
            attendanceState d'' (u_id me) today = ClockedIn))) \<and>
   (\<forall>r. onePerDay d \<and> getTodayAttendance d (u_id me) today = Some r \<and> at_clockOut r = None \<longrightarrow>
      (\<exists>updated d'. post_attendance_clock_out (Some me) d today now = (Json 200 updated, d') \<and>
         attendanceState d (u_id me) today = ClockedIn \<and> onePerDay d' \<and>
         (\<forall>d''. mset (attendance d'') = mset (attendance d') \<longrightarrow>
            getTodayAttendance d'' (u_id me) today = Some (r\<lparr>at_clockOut := Some now\<rparr>) \<and>
            attendanceState d'' (u_id me) today = ClockedOut)))"
proof (intro conjI allI impI)
  assume "getTodayAttendance d (u_id me) today \<noteq> None"
  then show "post_attendance_clock_in (Some me) d today now =
      (Send 400 ''Already clocked in today'', d)"
    by (auto simp: post_attendance_clock_in_def requireAuth_def)
next
  assume "getTodayAttendance d (u_id me) today = None"
  then show "post_attendance_clock_out (Some me) d today now =
      (Send 400 ''Not clocked in today'', d)"
    by (simp add: post_attendance_clock_out_def requireAuth_def)
next
  fix r
  assume "onePerDay d \<and> getTodayAttendance d (u_id me) today = Some r \<and> at_clockOut r \<noteq> None"
  then show "post_attendance_clock_out (Some me) d today now =
      (Send 400 ''Already clocked out today'', d)"
    by (auto simp: post_attendance_clock_out_def requireAuth_def)
next
  assume a: "onePerDay d \<and> getTodayAttendance d (u_id me) today = None"
  then have inv: "onePerDay d" and absent: "getTodayAttendance d (u_id me) today = None"
    by simp_all
  let ?r = "\<lparr>at_id = attendance_seq d, at_userId = u_id me, at_clockIn = now,
              at_clockOut = None, at_date = today\<rparr>"
  let ?d' = "d\<lparr>attendance := attendance d @ [?r], attendance_seq := attendance_seq d + 1\<rparr>"
  have step: "post_attendance_clock_in (Some me) d today now = (Json 201 ?r, ?d')"
    by (rule clock_in_absent [OF absent])
  have inv': "onePerDay ?d'"
    using onePerDay_clock_in [OF inv, of "Some me" today now] by (simp add: step)
  have found: "getTodayAttendance ?d' (u_id me) today = Some ?r"
    using absent by (simp add: getTodayAttendance_def find_append_new)
  have after: "getTodayAttendance d'' (u_id me) today = Some ?r \<and>
      attendanceState d'' (u_id me) today = ClockedIn"
    if "mset (attendance d'') = mset (attendance ?d')" for d''
    using getTodayAttendance_permuted [OF inv' that, of "u_id me" today] found
    by (simp add: attendanceState_def)
  have before: "attendanceState d (u_id me) today = Absent"
    using absent by (simp add: attendanceState_def)
  have rows: "attendance ?d' = attendance d @ [?r]" "at_userId ?r = u_id me" "at_date ?r = today"
    "at_clockIn ?r = now" "at_clockOut ?r = None"
    by simp_all
  from step rows before inv' after
  show "\<exists>r d'. post_attendance_clock_in (Some me) d today now = (Json 201 r, d') \<and>
         attendance d' = attendance d @ [r] \<and> at_userId r = u_id me \<and> at_date r = today \<and>
         at_clockIn r = now \<and> at_clockOut r = None \<and>
         attendanceState d (u_id me) today = Absent \<and> onePerDay d' \<and>
         (\<forall>d''. mset (attendance d'') = mset (attendance d') \<longrightarrow>
            getTodayAttendance d'' (u_id me) today = Some r \<and>
            attendanceState d'' (u_id me) today = ClockedIn)"
    by blast
next
  fix r
  assume a: "onePerDay d \<and> getTodayAttendance d (u_id me) today = Some r \<and> at_clockOut r = None"
  then have inv: "onePerDay d" and r: "getTodayAttendance d (u_id me) today = Some r"
    and opened: "at_clockOut r = None"
    by simp_all
  let ?d' = "d\<lparr>attendance :=
      map (\<lambda>a. if at_id a = at_id r then a\<lparr>at_clockOut := Some now\<rparr> else a) (attendance d)\<rparr>"
  obtain updated where
    step: "post_attendance_clock_out (Some me) d today now = (Json 200 updated, ?d')"
    using clock_out_open [OF r opened] by blast
  have inv': "onePerDay ?d'"
    using onePerDay_clock_out [OF inv, of "Some me" today now] by (simp add: step)
  have found: "getTodayAttendance ?d' (u_id me) today = Some (r\<lparr>at_clockOut := Some now\<rparr>)"
    by (rule getTodayAttendance_closed [OF r])
  have after: "getTodayAttendance d'' (u_id me) today = Some (r\<lparr>at_clockOut := Some now\<rparr>) \<and>
      attendanceState d'' (u_id me) today = ClockedOut"
    if "mset (attendance d'') = mset (attendance ?d')" for d''
    using getTodayAttendance_permuted [OF inv' that, of "u_id me" today] found
    by (simp add: attendanceState_def)
  have before: "attendanceState d (u_id me) today = ClockedIn"
    using r opened by (simp add: attendanceState_def)
  from step before inv' after
  show "\<exists>updated d'. post_attendance_clock_out (Some me) d today now = (Json 200 updated, d') \<and>
         attendanceState d (u_id me) today = ClockedIn \<and> onePerDay d' \<and>
         (\<forall>d''. mset (attendance d'') = mset (attendance d') \<longrightarrow>
            getTodayAttendance d'' (u_id me) today = Some (r\<lparr>at_clockOut := Some now\<rparr>) \<and>
            attendanceState d'' (u_id me) today = ClockedOut)"
    by blast
qed

theorem attendance_state_machine_witness:
  "onePerDay demo_db \<and>
   getTodayAttendance demo_db (u_id alice) ''2024-01-01'' = Some alice_monday \<and>
   at_clockOut alice_monday = None \<and>
   post_attendance_clock_in (Some alice) demo_db ''2024-01-01'' 200 =
     (Send 400 ''Already clocked in today'', demo_db) \<and>
   getTodayAttendance demo_db (u_id bob) ''2024-01-01'' = None \<and>
   post_attendance_clock_out (Some bob) demo_db ''2024-01-01'' 200 =
     (Send 400 ''Not clocked in today'', demo_db) \<and>
   (\<exists>r d'. post_attendance_clock_in (Some bob) demo_db ''2024-01-01'' 200 = (Json 201 r, d') \<and>
      attendanceState d' (u_id bob) ''2024-01-01'' = ClockedIn) \<and>
   (\<exists>updated d'.
      post_attendance_clock_out (Some alice) demo_db ''2024-01-01'' 200 = (Json 200 updated, d') \<and>
      attendanceState d' (u_id alice) ''2024-01-01'' = ClockedOut \<and>
      post_attendance_clock_out (Some alice) d' ''2024-01-01'' 300 =
        (Send 400 ''Already clocked out today'', d'))"
proof -
  have inv: "onePerDay demo_db"
    by (simp add: onePerDay_def demo_defs)
  have alice: "getTodayAttendance demo_db (u_id alice) ''2024-01-01'' = Some alice_monday"
    "at_clockOut alice_monday = None"
    and bob: "getTodayAttendance demo_db (u_id bob) ''2024-01-01'' = None"
    by (simp_all add: getTodayAttendance_def demo_defs)
  obtain updated d' where
    out: "post_attendance_clock_out (Some alice) demo_db ''2024-01-01'' 200 = (Json 200 updated, d')"
    and inv': "onePerDay d'"
    and after: "\<And>d''. mset (attendance d'') = mset (attendance d') \<Longrightarrow>
      getTodayAttendance d'' (u_id alice) ''2024-01-01'' =
        Some (alice_monday\<lparr>at_clockOut := Some 200\<rparr>) \<and>
      attendanceState d'' (u_id alice) ''2024-01-01'' = ClockedOut"
    using attendance_state_machine [of demo_db alice "''2024-01-01''" 200] inv alice by blast
  have closed: "getTodayAttendance d' (u_id alice) ''2024-01-01'' =
        Some (alice_monday\<lparr>at_clockOut := Some 200\<rparr>)"
    and state: "attendanceState d' (u_id alice) ''2024-01-01'' = ClockedOut"
    using after [of d'] by simp_all
  have again: "post_attendance_clock_out (Some alice) d' ''2024-01-01'' 300 =
        (Send 400 ''Already clocked out today'', d')"
    using attendance_state_machine [of d' alice "''2024-01-01''" 300] closed inv' by simp
  obtain r e' where
    "post_attendance_clock_in (Some bob) demo_db ''2024-01-01'' 200 = (Json 201 r, e')"
    and "\<And>d''. mset (attendance d'') = mset (attendance e') \<Longrightarrow>
      attendanceState d'' (u_id bob) ''2024-01-01'' = ClockedIn"
    using attendance_state_machine [of demo_db bob "''2024-01-01''" 200] inv bob by blast
  then have "\<exists>r d'. post_attendance_clock_in (Some bob) demo_db ''2024-01-01'' 200 = (Json 201 r, d') \<and>
      attendanceState d' (u_id bob) ''2024-01-01'' = ClockedIn"
    by blast
  moreover have "post_attendance_clock_in (Some alice) demo_db ''2024-01-01'' 200 =
     (Send 400 ''Already clocked in today'', demo_db)"
    using attendance_state_machine [of demo_db alice "''2024-01-01''" 200] alice by simp
  moreover have "post_attendance_clock_out (Some bob) demo_db ''2024-01-01'' 200 =
     (Send 400 ''Not clocked in today'', demo_db)"
    using attendance_state_machine [of demo_db bob "''2024-01-01''" 200] bob by simp
  ultimately show ?thesis
    using inv alice bob out state again by blast
qed

end
